theory Spec2Isabelle
  imports Complex_Main "HOL-Library.Word"
begin

chapter \<open>TXToo: the envelope codec and the ephemeral record store\<close>

text \<open>
  A shallow embedding of the client-side codec (\<^verbatim>\<open>src/utils/crypto.ts\<close>), of the password
  generator of \<^verbatim>\<open>Home.tsx\<close> and of the worker (\<^verbatim>\<open>workers/src/index.ts\<close>).

  JavaScript strings are sequences of 16-bit code units, \<^verbatim>\<open>Uint8Array\<close>s are lists of
  bytes, numbers are doubles, and the body of a request is a parsed JSON value of any
  kind. An exception is a value \<open>Inl e\<close> of a sum type. The functions of the platform the
  code calls (\<^verbatim>\<open>btoa\<close>, \<^verbatim>\<open>atob\<close>, \<^verbatim>\<open>TextEncoder\<close>, \<^verbatim>\<open>TextDecoder\<close>,
  \<^verbatim>\<open>crypto.getRandomValues\<close>) and the operators of the language it applies to values
  it has not checked (\<^verbatim>\<open>!\<close>, \<^verbatim>\<open>+\<close>, \<^verbatim>\<open><\<close>) are written out after their standards. The
  cryptographic primitives of \<^verbatim>\<open>crypto.subtle\<close>, two conversions between numbers and
  strings, and the conversions of D1 are parameters of the model.
\<close>

section \<open>Strings, bytes and errors\<close>

type_synonym byte = "8 word"
type_synonym code_unit = "16 word"
type_synonym jsstring = "code_unit list"

definition cu :: "char \<Rightarrow> code_unit" where
  \<comment> \<open>The code unit of an ASCII character.\<close>
  "cu c = of_char c"

definition js :: "string \<Rightarrow> jsstring" where
  \<comment> \<open>A string literal of the source.\<close>
  "js s = map cu s"

datatype error =
    InvalidCharacterError   \<comment> \<open>\<^verbatim>\<open>DOMException\<close> of \<^verbatim>\<open>btoa\<close> and \<^verbatim>\<open>atob\<close>\<close>
  | QuotaExceededError      \<comment> \<open>\<^verbatim>\<open>DOMException\<close> of \<^verbatim>\<open>crypto.getRandomValues\<close>\<close>
  | OperationError          \<comment> \<open>\<^verbatim>\<open>DOMException\<close> of \<^verbatim>\<open>crypto.subtle.decrypt\<close>\<close>
  | ConstraintError         \<comment> \<open>a failed \<^verbatim>\<open>INSERT\<close>: the primary key exists\<close>
  | SyntaxError             \<comment> \<open>\<^verbatim>\<open>request.json()\<close> on a body that is not JSON\<close>
  | TypeError               \<comment> \<open>destructuring \<^verbatim>\<open>null\<close>; an object that has no primitive value\<close>
  | D1TypeError             \<comment> \<open>a value that \<^verbatim>\<open>bind\<close> or \<^verbatim>\<open>run\<close> of D1 does not accept\<close>

section \<open>Base64: \<^verbatim>\<open>btoa\<close> and \<^verbatim>\<open>atob\<close>\<close>

text \<open>
  \<^verbatim>\<open>btoa\<close> is the base64 encoding of RFC 4648, section 4, with padding; it throws when a
  code unit of its argument is above \<open>0xFF\<close>. A group of three bytes is a 24-bit number
  whose four 6-bit digits index the alphabet; a last group of one or two bytes is filled
  with zero bits and padded with \<open>=\<close>.
\<close>

definition base64_alphabet :: jsstring where
  "base64_alphabet = js ''ABCDEFGHIJKLMNOPQRSTUVWXYZabcdefghijklmnopqrstuvwxyz0123456789+/''"

definition b64_char :: "nat \<Rightarrow> code_unit" where
  "b64_char n = base64_alphabet ! n"

definition b64_index :: "code_unit \<Rightarrow> nat" where
  \<comment> \<open>The position of a code unit in the alphabet (64 when it is not there).\<close>
  "b64_index c = length (takeWhile (\<lambda>x. x \<noteq> c) base64_alphabet)"

definition pad_char :: code_unit where
  "pad_char = cu CHR ''=''"

fun base64_encode :: "byte list \<Rightarrow> jsstring" where
  "base64_encode (a # b # c # rest) =
     (let n = unat a * 65536 + unat b * 256 + unat c
      in [b64_char (n div 262144), b64_char (n div 4096 mod 64),
          b64_char (n div 64 mod 64), b64_char (n mod 64)] @ base64_encode rest)"
| "base64_encode [a, b] =
     (let n = unat a * 1024 + unat b * 4
      in [b64_char (n div 4096), b64_char (n div 64 mod 64), b64_char (n mod 64), pad_char])"
| "base64_encode [a] =
     (let n = unat a * 16
      in [b64_char (n div 64), b64_char (n mod 64), pad_char, pad_char])"
| "base64_encode [] = []"

definition btoa :: "jsstring \<Rightarrow> error + jsstring" where
  "btoa s = (if list_ex (\<lambda>c. 0xFF < c) s then Inl InvalidCharacterError
             else Inr (base64_encode (map ucast s)))"

text \<open>
  \<^verbatim>\<open>atob\<close> is the forgiving-base64 decode of the WHATWG Infra standard: ASCII whitespace
  is removed; when the length is then a multiple of four, one or two \<open>=\<close> at the end are
  removed; a length that leaves remainder one and a code unit outside the alphabet are
  failures; the 6-bit digits are collected in a buffer that is emitted as three bytes when
  it holds 24 bits; a last buffer of 12 or 18 bits loses its last four or two bits.
\<close>

definition is_ascii_whitespace :: "code_unit \<Rightarrow> bool" where
  "is_ascii_whitespace c \<longleftrightarrow> c = 0x09 \<or> c = 0x0A \<or> c = 0x0C \<or> c = 0x0D \<or> c = 0x20"

definition strip_padding :: "jsstring \<Rightarrow> jsstring" where
  "strip_padding s =
     (if 2 \<le> length s \<and> drop (length s - 2) s = [pad_char, pad_char]
      then take (length s - 2) s
      else if 1 \<le> length s \<and> drop (length s - 1) s = [pad_char]
      then take (length s - 1) s
      else s)"

fun decode_sextets :: "nat list \<Rightarrow> byte list" where
  "decode_sextets (s1 # s2 # s3 # s4 # rest) =
     (let n = ((s1 * 64 + s2) * 64 + s3) * 64 + s4
      in [of_nat (n div 65536), of_nat (n div 256 mod 256), of_nat (n mod 256)]
         @ decode_sextets rest)"
| "decode_sextets [s1, s2, s3] =
     (let n = ((s1 * 64 + s2) * 64 + s3) div 4
      in [of_nat (n div 256), of_nat (n mod 256)])"
| "decode_sextets [s1, s2] = [of_nat ((s1 * 64 + s2) div 16)]"
| "decode_sextets [s1] = []"
| "decode_sextets [] = []"

definition atob :: "jsstring \<Rightarrow> error + jsstring" where
  "atob data =
     (let data1 = filter (\<lambda>c. \<not> is_ascii_whitespace c) data;
          data2 = (if length data1 mod 4 = 0 then strip_padding data1 else data1)
      in if length data2 mod 4 = 1 then Inl InvalidCharacterError
         else if list_ex (\<lambda>c. c \<notin> set base64_alphabet) data2 then Inl InvalidCharacterError
         else Inr (map ucast (decode_sextets (map b64_index data2))))"

section \<open>The base64url codec of \<^verbatim>\<open>crypto.ts\<close>\<close>

definition replace_all :: "code_unit \<Rightarrow> jsstring \<Rightarrow> jsstring \<Rightarrow> jsstring" where
  \<comment> \<open>\<^verbatim>\<open>s.replace(/c/g, r)\<close> for a one-character pattern.\<close>
  "replace_all c r s = concat (map (\<lambda>x. if x = c then r else [x]) s)"

definition base64urlEncode :: "byte list \<Rightarrow> error + jsstring" where
  "base64urlEncode buffer =
     (let bytes = buffer;
          binary = map ucast bytes
      in case btoa binary of
           Inl e \<Rightarrow> Inl e
         | Inr s \<Rightarrow>
             Inr (replace_all (cu CHR ''='') (js '''')
                   (replace_all (cu CHR ''/'') (js ''_'')
                     (replace_all (cu CHR ''+'') (js ''-'') s))))"

function pad_loop :: "jsstring \<Rightarrow> jsstring" where
  \<comment> \<open>\<^verbatim>\<open>while (str.length % 4) { str += '='; }\<close>\<close>
  "pad_loop str = (if length str mod 4 \<noteq> 0 then pad_loop (str @ js ''='') else str)"
  by pat_completeness auto
termination
  by (relation "measure (\<lambda>s. 3 - (length s + 3) mod 4)") (auto simp: js_def, presburger)

declare pad_loop.simps [simp del]

definition base64urlDecode :: "jsstring \<Rightarrow> error + byte list" where
  "base64urlDecode str0 =
     (let str1 = replace_all (cu CHR ''_'') (js ''/'')
                   (replace_all (cu CHR ''-'') (js ''+'') str0);
          str2 = pad_loop str1
      in case atob str2 of
           Inl e \<Rightarrow> Inl e
         | Inr binary \<Rightarrow> Inr (map ucast binary))"

section \<open>\<^verbatim>\<open>TextEncoder\<close> and \<^verbatim>\<open>TextDecoder\<close>\<close>

text \<open>
  \<^verbatim>\<open>TextEncoder.encode\<close> takes a \<^verbatim>\<open>USVString\<close>: its argument is first converted to a
  sequence of Unicode scalar values, where a surrogate pair is one value and every
  unpaired surrogate becomes \<open>U+FFFD\<close> (Web IDL); the values are then encoded by the
  UTF-8 encoder of the WHATWG Encoding standard.
\<close>

definition is_lead_surrogate :: "code_unit \<Rightarrow> bool" where
  "is_lead_surrogate c \<longleftrightarrow> 0xD800 \<le> c \<and> c \<le> 0xDBFF"

definition is_trail_surrogate :: "code_unit \<Rightarrow> bool" where
  "is_trail_surrogate c \<longleftrightarrow> 0xDC00 \<le> c \<and> c \<le> 0xDFFF"

fun scalar_values :: "jsstring \<Rightarrow> nat list" where
  "scalar_values [] = []"
| "scalar_values [c] = (if is_lead_surrogate c \<or> is_trail_surrogate c then [0xFFFD] else [unat c])"
| "scalar_values (c # d # s) =
     (if is_lead_surrogate c
      then (if is_trail_surrogate d
            then (0x10000 + (unat c - 0xD800) * 0x400 + (unat d - 0xDC00)) # scalar_values s
            else 0xFFFD # scalar_values (d # s))
      else if is_trail_surrogate c then 0xFFFD # scalar_values (d # s)
      else unat c # scalar_values (d # s))"

definition utf8_encode_scalar :: "nat \<Rightarrow> nat list" where
  \<comment> \<open>The bytes of one scalar value: \<open>cp >> 6\<close> is \<open>cp div 64\<close>, \<open>cp & 0x3F\<close> is
      \<open>cp mod 64\<close>.\<close>
  "utf8_encode_scalar cp =
     (if cp \<le> 0x7F then [cp]
      else if cp \<le> 0x7FF then [0xC0 + cp div 64, 0x80 + cp mod 64]
      else if cp \<le> 0xFFFF then [0xE0 + cp div 4096, 0x80 + cp div 64 mod 64, 0x80 + cp mod 64]
      else [0xF0 + cp div 262144, 0x80 + cp div 4096 mod 64, 0x80 + cp div 64 mod 64,
            0x80 + cp mod 64])"

definition TextEncoder_encode :: "jsstring \<Rightarrow> byte list" where
  "TextEncoder_encode s = map of_nat (concat (map utf8_encode_scalar (scalar_values s)))"

text \<open>
  The UTF-8 decoder of the Encoding standard, with its five variables, run over the whole
  input in the error mode \<^emph>\<open>replacement\<close> of \<^verbatim>\<open>new TextDecoder()\<close>: each error emits
  \<open>U+FFFD\<close>. A byte that cannot continue a sequence is put back and read again as the
  start of the next one.
\<close>

function utf8_decoder ::
  "nat \<Rightarrow> nat \<Rightarrow> nat \<Rightarrow> nat \<Rightarrow> nat \<Rightarrow> nat list \<Rightarrow> nat list" where
  "utf8_decoder code_point bytes_seen bytes_needed lower upper [] =
     (if bytes_needed \<noteq> 0 then [0xFFFD] else [])"
| "utf8_decoder code_point bytes_seen bytes_needed lower upper (byte # queue) =
     (if bytes_needed = 0 then
        (if byte \<le> 0x7F
         then byte # utf8_decoder code_point bytes_seen bytes_needed lower upper queue
         else if 0xC2 \<le> byte \<and> byte \<le> 0xDF
         then utf8_decoder (byte mod 32) bytes_seen 1 lower upper queue
         else if 0xE0 \<le> byte \<and> byte \<le> 0xEF
         then utf8_decoder (byte mod 16) bytes_seen 2
                (if byte = 0xE0 then 0xA0 else lower) (if byte = 0xED then 0x9F else upper) queue
         else if 0xF0 \<le> byte \<and> byte \<le> 0xF4
         then utf8_decoder (byte mod 8) bytes_seen 3
                (if byte = 0xF0 then 0x90 else lower) (if byte = 0xF4 then 0x8F else upper) queue
         else 0xFFFD # utf8_decoder code_point bytes_seen bytes_needed lower upper queue)
      else if byte < lower \<or> upper < byte
      then 0xFFFD # utf8_decoder 0 0 0 0x80 0xBF (byte # queue)
      else (let code_point' = code_point * 64 + byte mod 64;
                bytes_seen' = bytes_seen + 1
            in if bytes_seen' \<noteq> bytes_needed
               then utf8_decoder code_point' bytes_seen' bytes_needed 0x80 0xBF queue
               else code_point' # utf8_decoder 0 0 0 0x80 0xBF queue))"
  by pat_completeness auto
termination
  by (relation "measure (\<lambda>(cp, seen, needed, lo, hi, q). 2 * length q + (if needed = 0 then 0 else 1))")
     auto

declare utf8_decoder.simps [simp del]

definition utf16_units :: "nat \<Rightarrow> jsstring" where
  \<comment> \<open>The code units of a code point in a JavaScript string.\<close>
  "utf16_units cp =
     (if cp < 0x10000 then [of_nat cp]
      else [of_nat (0xD800 + (cp - 0x10000) div 0x400), of_nat (0xDC00 + (cp - 0x10000) mod 0x400)])"

definition TextDecoder_decode :: "byte list \<Rightarrow> jsstring" where
  \<comment> \<open>\<^verbatim>\<open>new TextDecoder().decode(bytes)\<close>: \<^verbatim>\<open>fatal\<close> and \<^verbatim>\<open>ignoreBOM\<close> are false, so the
      call never throws and a byte order mark at the start is left out of the result.\<close>
  "TextDecoder_decode bytes =
     (let decoded = utf8_decoder 0 0 0 0x80 0xBF (map unat bytes);
          output = (case decoded of
                      [] \<Rightarrow> []
                    | c # rest \<Rightarrow> if c = 0xFEFF then rest else decoded)
      in concat (map utf16_units output))"

section \<open>The secure random source\<close>

text \<open>
  \<^verbatim>\<open>crypto.getRandomValues\<close> fills a typed array with the next bytes of the platform's
  secure source. The source is the sequence of bytes it will deliver, so a caller can
  observe only the bytes it is given. The Web Cryptography API has the call throw a
  \<^verbatim>\<open>QuotaExceededError\<close> when more than 65536 bytes are asked for.
\<close>

type_synonym rng = "nat \<Rightarrow> byte"

definition getRandomValues :: "nat \<Rightarrow> rng \<Rightarrow> error + (byte list \<times> rng)" where
  "getRandomValues n r =
     (if 65536 < n then Inl QuotaExceededError
      else Inr (map r [0..<n], \<lambda>i. r (i + n)))"

section \<open>The envelope codec of \<^verbatim>\<open>crypto.ts\<close>\<close>

text \<open>
  The primitives of \<^verbatim>\<open>crypto.subtle\<close> the codec calls are parameters: PBKDF2 key
  derivation (with the hash SHA-256 and an AES-GCM key of 256 bits, as the call fixes
  them) and AES-GCM with its default tag of 128 bits and no additional data. A key of type
  \<open>'k\<close> is opaque, as a \<^verbatim>\<open>CryptoKey\<close> that is not extractable is. Decryption that does
  not accept its input is \<open>None\<close>, the \<^verbatim>\<open>OperationError\<close> of the platform.
\<close>

record 'k subtle_crypto =
  pbkdf2 :: "byte list \<Rightarrow> byte list \<Rightarrow> nat \<Rightarrow> 'k"
  aes_gcm_encrypt :: "'k \<Rightarrow> byte list \<Rightarrow> byte list \<Rightarrow> byte list"
  aes_gcm_decrypt :: "'k \<Rightarrow> byte list \<Rightarrow> byte list \<Rightarrow> byte list option"

definition deriveKey :: "'k subtle_crypto \<Rightarrow> jsstring \<Rightarrow> byte list \<Rightarrow> 'k" where
  "deriveKey subtle password salt =
     (let passwordBuffer = TextEncoder_encode password;
          keyMaterial = passwordBuffer
      in pbkdf2 subtle keyMaterial salt 100000)"

record envelope =
  env_cipherText :: jsstring
  env_iv :: jsstring

definition encryptText ::
  "'k subtle_crypto \<Rightarrow> rng \<Rightarrow> jsstring \<Rightarrow> jsstring \<Rightarrow> error + (envelope \<times> rng)" where
  "encryptText subtle r text password =
     (let data = TextEncoder_encode text
      in case getRandomValues 16 r of
           Inl e \<Rightarrow> Inl e
         | Inr (salt, r1) \<Rightarrow>
             (case getRandomValues 12 r1 of
                Inl e \<Rightarrow> Inl e
              | Inr (iv, r2) \<Rightarrow>
                  (let key = deriveKey subtle password salt;
                       encryptedData = aes_gcm_encrypt subtle key iv data;
                       combinedBuffer = salt @ encryptedData
                   in case base64urlEncode combinedBuffer of
                        Inl e \<Rightarrow> Inl e
                      | Inr cipherText \<Rightarrow>
                          (case base64urlEncode iv of
                             Inl e \<Rightarrow> Inl e
                           | Inr ivString \<Rightarrow>
                               Inr (\<lparr>env_cipherText = cipherText, env_iv = ivString\<rparr>, r2)))))"

definition decryptText ::
  "'k subtle_crypto \<Rightarrow> jsstring \<Rightarrow> jsstring \<Rightarrow> jsstring \<Rightarrow> error + jsstring" where
  \<comment> \<open>\<^verbatim>\<open>slice(0, 16)\<close> is \<open>take 16\<close> and \<^verbatim>\<open>slice(16)\<close> is \<open>drop 16\<close>, also on a shorter
      buffer.\<close>
  "decryptText subtle cipherText ivString password =
     (case base64urlDecode cipherText of
        Inl e \<Rightarrow> Inl e
      | Inr combinedBuffer \<Rightarrow>
          (case base64urlDecode ivString of
             Inl e \<Rightarrow> Inl e
           | Inr iv \<Rightarrow>
               (let salt = take 16 combinedBuffer;
                    encryptedData = drop 16 combinedBuffer;
                    key = deriveKey subtle password salt
                in case aes_gcm_decrypt subtle key iv encryptedData of
                     None \<Rightarrow> Inl OperationError
                   | Some decryptedData \<Rightarrow> Inr (TextDecoder_decode decryptedData))))"

section \<open>The password generator of \<^verbatim>\<open>Home.tsx\<close>\<close>

definition generateRandomPassword :: "rng \<Rightarrow> error + (jsstring \<times> rng)" where
  "generateRandomPassword r =
     (let chars = js ''ABCDEFGHIJKLMNOPQRSTUVWXYZabcdefghijklmnopqrstuvwxyz0123456789-_'';
          len = 16
      in case getRandomValues len r of
           Inl e \<Rightarrow> Inl e
         | Inr (randomValues, r') \<Rightarrow>
             Inr (map (\<lambda>i. chars ! (unat (randomValues ! i) mod length chars)) [0..<len], r'))"

section \<open>JavaScript values: numbers, parsed JSON, and the operators the worker applies\<close>

subsection \<open>Numbers\<close>

text \<open>
  A JavaScript Number is a double (IEEE 754 binary64): a finite value, one of the two
  infinities, or \<^verbatim>\<open>NaN\<close>. A finite number is given by its value, a rational; the sign of a
  zero is not recorded (both zeros are falsy, print as \<^verbatim>\<open>0\<close> and add alike).

  \<open>binary64 x\<close> is the double nearest to the rational \<open>x\<close>, ties to the even significand:
  the significand has 53 bits, the least exponent of a unit in the last place is \<open>-1074\<close>
  (subnormal numbers), and a result of magnitude \<open>2^1024\<close> or more is an infinity.
  \<open>binade x\<close> is the exponent \<open>e\<close> with \<open>2^e \<le> |x| < 2^(e+1)\<close>.
\<close>

datatype number = Finite rat | PosInfinity | NegInfinity | NaN

fun bitlen :: "nat \<Rightarrow> nat" where
  \<comment> \<open>The number of binary digits of \<open>n\<close>.\<close>
  "bitlen n = (if n = 0 then 0 else Suc (bitlen (n div 2)))"

declare bitlen.simps [simp del]

definition pow2 :: "int \<Rightarrow> rat" where
  "pow2 e = (if 0 \<le> e then 2 ^ nat e else 1 / 2 ^ nat (- e))"

definition binade :: "rat \<Rightarrow> int" where
  "binade x =
     (if 1 \<le> \<bar>x\<bar> then int (bitlen (nat \<lfloor>\<bar>x\<bar>\<rfloor>)) - 1
      else (let k = int (bitlen (nat \<lfloor>1 / \<bar>x\<bar>\<rfloor>)) - 1
            in if \<bar>x\<bar> = pow2 (- k) then - k else - k - 1))"

definition round_half_even :: "rat \<Rightarrow> int" where
  "round_half_even x =
     (let n = \<lfloor>x\<rfloor>; d = x - of_int n
      in if d < 1 / 2 then n else if 1 / 2 < d then n + 1 else if even n then n else n + 1)"

definition binary64 :: "rat \<Rightarrow> number" where
  "binary64 x =
     (if x = 0 then Finite 0
      else (let e = max (binade x - 52) (- 1074);
                y = of_int (round_half_even (x / pow2 e)) * pow2 e
            in if pow2 1024 \<le> \<bar>y\<bar> then (if 0 < x then PosInfinity else NegInfinity)
               else Finite y))"

fun number_add :: "number \<Rightarrow> number \<Rightarrow> number" where
  \<comment> \<open>\<^verbatim>\<open>Number::add\<close>: the sum, rounded.\<close>
  "number_add (Finite a) (Finite b) = binary64 (a + b)"
| "number_add (Finite a) y = y"
| "number_add PosInfinity y = (if y = NegInfinity \<or> y = NaN then NaN else PosInfinity)"
| "number_add NegInfinity y = (if y = PosInfinity \<or> y = NaN then NaN else NegInfinity)"
| "number_add NaN y = NaN"

fun number_less :: "number \<Rightarrow> number \<Rightarrow> bool" where
  \<comment> \<open>\<^verbatim>\<open>Number::lessThan\<close>, with \<^verbatim>\<open>undefined\<close> (a comparison with \<^verbatim>\<open>NaN\<close>) read as
      false, as \<^verbatim>\<open><\<close> does.\<close>
  "number_less (Finite a) (Finite b) = (a < b)"
| "number_less (Finite a) PosInfinity = True"
| "number_less (Finite a) NegInfinity = False"
| "number_less (Finite a) NaN = False"
| "number_less PosInfinity y = False"
| "number_less NegInfinity y = (y \<noteq> NegInfinity \<and> y \<noteq> NaN)"
| "number_less NaN y = False"

subsection \<open>Values\<close>

text \<open>
  The values \<^verbatim>\<open>request.json()\<close> returns: \<^verbatim>\<open>null\<close>, a boolean, a number, a string, an
  array, or an object with its members in the order of the text. The rows D1 returns
  hold values of these kinds as well (a number, a string, or an array of bytes for a
  blob).
\<close>

datatype js_value =
    JNull
  | JBool bool
  | JNumber number
  | JString jsstring
  | JArray "js_value list"
  | JObject "(jsstring \<times> js_value) list"

text \<open>
  The tables of D1 are those of SQLite: a column has a type affinity, and a value that
  does not match it is converted or kept as it is by rules of SQLite and of the D1 API.
\<close>

datatype affinity = Text_column | Integer_column

text \<open>
  Three functions of the platform are parameters of the model: \<^verbatim>\<open>Number::toString\<close> of
  ECMA-262 on the finite numbers that are not integers of magnitude at most \<open>2^53\<close> (it
  prints the shortest digits that identify the double), \<^verbatim>\<open>StringToNumber\<close> of ECMA-262,
  and what D1 makes of a bound value that is not a plain string for a text column or a
  safe integer for an integer column: the value a later \<^verbatim>\<open>SELECT\<close> returns for it, or the
  error \<^verbatim>\<open>bind\<close> or \<^verbatim>\<open>run\<close> throws.
\<close>

record platform =
  Number_toString :: "rat \<Rightarrow> jsstring"
  StringToNumber :: "jsstring \<Rightarrow> number"
  d1_convert :: "affinity \<Rightarrow> js_value \<Rightarrow> error + js_value"

subsection \<open>Conversions\<close>

definition digit_char :: "nat \<Rightarrow> code_unit" where
  "digit_char d = of_nat (48 + d)"

fun decimal_digits :: "nat \<Rightarrow> jsstring" where
  "decimal_digits n =
     (if n < 10 then [digit_char n] else decimal_digits (n div 10) @ [digit_char (n mod 10)])"

declare decimal_digits.simps [simp del]

definition decimal :: "int \<Rightarrow> jsstring" where
  "decimal n = (if n < 0 then cu CHR ''-'' # decimal_digits (nat (- n)) else decimal_digits (nat n))"

definition number_to_string :: "platform \<Rightarrow> number \<Rightarrow> jsstring" where
  \<comment> \<open>\<^verbatim>\<open>Number::toString\<close>: an integer of magnitude at most \<open>2^53\<close> is printed in its
      decimal digits.\<close>
  "number_to_string pf x =
     (case x of
        Finite q \<Rightarrow>
          if q = of_int \<lfloor>q\<rfloor> \<and> \<bar>q\<bar> \<le> 2 ^ 53 then decimal \<lfloor>q\<rfloor> else Number_toString pf q
      | PosInfinity \<Rightarrow> js ''Infinity''
      | NegInfinity \<Rightarrow> js ''-Infinity''
      | NaN \<Rightarrow> js ''NaN'')"

fun join_elements :: "(error + jsstring) list \<Rightarrow> error + jsstring" where
  \<comment> \<open>The strings of the elements with \<^verbatim>\<open>,\<close> between them; the first exception wins.\<close>
  "join_elements [] = Inr []"
| "join_elements [x] = x"
| "join_elements (x # y # ys) =
     (case x of
        Inl e \<Rightarrow> Inl e
      | Inr s \<Rightarrow>
          (case join_elements (y # ys) of
             Inl e \<Rightarrow> Inl e
           | Inr t \<Rightarrow> Inr (s @ js '','' @ t)))"

fun to_string :: "platform \<Rightarrow> js_value \<Rightarrow> error + jsstring" where
  \<comment> \<open>\<^verbatim>\<open>ToString\<close>. An array is joined (\<^verbatim>\<open>Array.prototype.join\<close>, where \<^verbatim>\<open>null\<close> is the
      empty string). A parsed object has the methods of \<^verbatim>\<open>Object.prototype\<close> unless a
      member of its own hides them: a member \<^verbatim>\<open>toString\<close> is not callable, and then no
      method gives a primitive value.\<close>
  "to_string pf JNull = Inr (js ''null'')"
| "to_string pf (JBool b) = Inr (if b then js ''true'' else js ''false'')"
| "to_string pf (JNumber n) = Inr (number_to_string pf n)"
| "to_string pf (JString s) = Inr s"
| "to_string pf (JArray xs) =
     join_elements (map (\<lambda>x. if x = JNull then Inr [] else to_string pf x) xs)"
| "to_string pf (JObject members) =
     (if js ''toString'' \<in> set (map fst members) then Inl TypeError
      else Inr (js ''[object Object]''))"

definition to_primitive :: "platform \<Rightarrow> js_value \<Rightarrow> error + js_value" where
  \<comment> \<open>\<^verbatim>\<open>ToPrimitive\<close>: \<^verbatim>\<open>valueOf\<close> of an array or of a parsed object returns the object
      itself, so the primitive value is the string of \<^verbatim>\<open>toString\<close>.\<close>
  "to_primitive pf v =
     (case v of
        JArray xs \<Rightarrow> map_sum id JString (to_string pf v)
      | JObject members \<Rightarrow> map_sum id JString (to_string pf v)
      | _ \<Rightarrow> Inr v)"

definition to_number :: "platform \<Rightarrow> js_value \<Rightarrow> error + number" where
  \<comment> \<open>\<^verbatim>\<open>ToNumber\<close>.\<close>
  "to_number pf v =
     (case v of
        JNull \<Rightarrow> Inr (Finite 0)
      | JBool b \<Rightarrow> Inr (Finite (if b then 1 else 0))
      | JNumber n \<Rightarrow> Inr n
      | JString s \<Rightarrow> Inr (StringToNumber pf s)
      | _ \<Rightarrow> map_sum id (StringToNumber pf) (to_string pf v))"

definition to_boolean :: "js_value option \<Rightarrow> bool" where
  \<comment> \<open>\<^verbatim>\<open>ToBoolean\<close>; \<open>None\<close> is \<^verbatim>\<open>undefined\<close>.\<close>
  "to_boolean v =
     (case v of
        None \<Rightarrow> False
      | Some JNull \<Rightarrow> False
      | Some (JBool b) \<Rightarrow> b
      | Some (JNumber n) \<Rightarrow> n \<noteq> Finite 0 \<and> n \<noteq> NaN
      | Some (JString s) \<Rightarrow> s \<noteq> []
      | Some (JArray xs) \<Rightarrow> True
      | Some (JObject members) \<Rightarrow> True)"

definition member :: "js_value \<Rightarrow> jsstring \<Rightarrow> js_value option" where
  \<comment> \<open>The property \<open>k\<close> of a value that is not \<^verbatim>\<open>null\<close>, for a name \<open>k\<close> that no prototype
      defines and that is not an index (\<^verbatim>\<open>ttl\<close>, \<^verbatim>\<open>cipherText\<close> and \<^verbatim>\<open>iv\<close> are such
      names): the member of an object, where the last of several members of one name
      counts (\<^verbatim>\<open>JSON.parse\<close>), and \<^verbatim>\<open>undefined\<close> on every other value.\<close>
  "member v k = (case v of JObject members \<Rightarrow> map_of (rev members) k | _ \<Rightarrow> None)"

definition is_string :: "js_value \<Rightarrow> bool" where
  "is_string v = (case v of JString s \<Rightarrow> True | _ \<Rightarrow> False)"

definition js_plus :: "platform \<Rightarrow> js_value \<Rightarrow> js_value \<Rightarrow> error + js_value" where
  \<comment> \<open>The operator \<^verbatim>\<open>+\<close>: both operands are made primitive; when one of them is a string
      the result is the concatenation of their strings, otherwise the sum of their
      numbers.\<close>
  "js_plus pf a b =
     (case to_primitive pf a of
        Inl e \<Rightarrow> Inl e
      | Inr pa \<Rightarrow>
          (case to_primitive pf b of
             Inl e \<Rightarrow> Inl e
           | Inr pb \<Rightarrow>
               if is_string pa \<or> is_string pb
               then (case to_string pf pa of
                       Inl e \<Rightarrow> Inl e
                     | Inr sa \<Rightarrow>
                         (case to_string pf pb of
                            Inl e \<Rightarrow> Inl e
                          | Inr sb \<Rightarrow> Inr (JString (sa @ sb))))
               else (case to_number pf pa of
                       Inl e \<Rightarrow> Inl e
                     | Inr na \<Rightarrow>
                         (case to_number pf pb of
                            Inl e \<Rightarrow> Inl e
                          | Inr nb \<Rightarrow> Inr (JNumber (number_add na nb))))))"

definition less_than_number :: "platform \<Rightarrow> js_value \<Rightarrow> number \<Rightarrow> error + bool" where
  \<comment> \<open>\<^verbatim>\<open>v < n\<close> for a number \<open>n\<close>: \<open>v\<close> is made a number and the numbers are compared.\<close>
  "less_than_number pf v n = map_sum id (\<lambda>x. number_less x n) (to_number pf v)"

section \<open>The worker: identifiers and the table \<^verbatim>\<open>texts\<close>\<close>

definition generateId :: "nat \<Rightarrow> rng \<Rightarrow> error + (jsstring \<times> rng)" where
  \<comment> \<open>\<^verbatim>\<open>Math.ceil(length * 3 / 4)\<close> is \<open>(length * 3 + 3) div 4\<close>;
      \<^verbatim>\<open>substring(0, length)\<close> is \<open>take length\<close>.\<close>
  "generateId len r =
     (case getRandomValues ((len * 3 + 3) div 4) r of
        Inl e \<Rightarrow> Inl e
      | Inr (bytes, r') \<Rightarrow>
          (case btoa (map ucast bytes) of
             Inl e \<Rightarrow> Inl e
           | Inr s \<Rightarrow>
               (let base64 = replace_all (cu CHR ''='') (js '''')
                               (replace_all (cu CHR ''/'') (js ''_'')
                                 (replace_all (cu CHR ''+'') (js ''-'') s))
                in Inr (take len base64, r'))))"

text \<open>
  The table \<^verbatim>\<open>texts\<close> of \<^verbatim>\<open>schema.sql\<close>. The column \<^verbatim>\<open>id\<close> is the primary key, so the
  table is a map from identifiers to rows, and an \<^verbatim>\<open>INSERT\<close> of an identifier that is
  present fails. A row holds, for each of the other columns, the value a \<^verbatim>\<open>SELECT\<close>
  returns for it.

  A value bound to an \<^verbatim>\<open>INSERT\<close> is stored, and read again, as it is when it is a
  string of at most 65536 printable ASCII characters bound to a text column, or an integer
  of magnitude at most \<open>2^53\<close> bound to an integer column. What becomes of any other value
  (a conversion by the rules of SQLite, or an error of \<^verbatim>\<open>bind\<close> or \<^verbatim>\<open>run\<close>) is the
  platform's \<open>d1_convert\<close>. The identifier is a string of 12 URL-safe characters.
\<close>

record row =
  row_id :: jsstring
  row_cipher_text :: js_value
  row_iv :: js_value
  row_created_at :: js_value
  row_expires_at :: js_value

type_synonym db = "jsstring \<rightharpoonup> row"

definition db_insert :: "db \<Rightarrow> row \<Rightarrow> error + db" where
  "db_insert db r =
     (case db (row_id r) of
        Some existing \<Rightarrow> Inl ConstraintError
      | None \<Rightarrow> Inr (db(row_id r \<mapsto> r)))"

definition db_select :: "db \<Rightarrow> jsstring \<Rightarrow> row option" where
  "db_select db ident = db ident"

definition db_delete :: "db \<Rightarrow> jsstring \<Rightarrow> db" where
  "db_delete db ident = db(ident := None)"

definition printable_ascii :: "jsstring \<Rightarrow> bool" where
  "printable_ascii s = list_all (\<lambda>c. 0x20 \<le> c \<and> c \<le> 0x7E) s"

definition kept_as_bound :: "affinity \<Rightarrow> js_value \<Rightarrow> bool" where
  "kept_as_bound a v =
     (case v of
        JString s \<Rightarrow> a = Text_column \<and> printable_ascii s \<and> length s \<le> 65536
      | JNumber n \<Rightarrow>
          a = Integer_column \<and>
          (case n of Finite q \<Rightarrow> q = of_int \<lfloor>q\<rfloor> \<and> \<bar>q\<bar> \<le> 2 ^ 53 | _ \<Rightarrow> False)
      | _ \<Rightarrow> False)"

definition d1_store :: "platform \<Rightarrow> affinity \<Rightarrow> js_value \<Rightarrow> error + js_value" where
  "d1_store pf a v = (if kept_as_bound a v then Inr v else d1_convert pf a v)"

definition d1_insert ::
  "platform \<Rightarrow> db \<Rightarrow> jsstring \<Rightarrow> js_value \<Rightarrow> js_value \<Rightarrow> js_value \<Rightarrow> js_value \<Rightarrow> error + db"
  where
  \<comment> \<open>\<^verbatim>\<open>INSERT INTO texts (id, cipher_text, iv, created_at, expires_at) VALUES (?, ?, ?, ?, ?)\<close>
      with the five values bound.\<close>
  "d1_insert pf db ident cipherText iv now expiresAt =
     (case d1_store pf Text_column cipherText of
        Inl e \<Rightarrow> Inl e
      | Inr cipher_text_v \<Rightarrow>
          (case d1_store pf Text_column iv of
             Inl e \<Rightarrow> Inl e
           | Inr iv_v \<Rightarrow>
               (case d1_store pf Integer_column now of
                  Inl e \<Rightarrow> Inl e
                | Inr created_at_v \<Rightarrow>
                    (case d1_store pf Integer_column expiresAt of
                       Inl e \<Rightarrow> Inl e
                     | Inr expires_at_v \<Rightarrow>
                         db_insert db
                           \<lparr>row_id = ident, row_cipher_text = cipher_text_v, row_iv = iv_v,
                            row_created_at = created_at_v,
                            row_expires_at = expires_at_v\<rparr>))))"

section \<open>The worker: the two routes\<close>

datatype payload =
    ErrorMessage jsstring
  | SubmitData (data_id: jsstring) (data_url: jsstring) (data_expiresAt: js_value)
  | FetchData (data_id: jsstring) (data_cipher_text: js_value) (data_iv: js_value)
      (data_expiresAt: js_value)
  | Info
  | NoBody

datatype response = Response (status: nat) (payload: payload)

definition handle_submit ::
  "platform \<Rightarrow> jsstring \<Rightarrow> int \<Rightarrow> error + js_value \<Rightarrow> db \<Rightarrow> rng \<Rightarrow> response \<times> db \<times> rng"
  where
  \<comment> \<open>The route \<^verbatim>\<open>POST /api/submit\<close>: \<open>origin\<close> is \<^verbatim>\<open>url.origin\<close>, \<open>date_now\<close> is
      \<^verbatim>\<open>Date.now()\<close> and \<open>parsed\<close> is the outcome of \<^verbatim>\<open>request.json()\<close>. Destructuring
      \<^verbatim>\<open>null\<close> throws. Every exception inside the \<^verbatim>\<open>try\<close> block ends in the same
      response 500. A value that is \<^verbatim>\<open>undefined\<close> is falsy, so the three values are
      there when the check has passed.\<close>
  "handle_submit pf origin date_now parsed db r =
     (let failed = Response 500 (ErrorMessage (js ''Failed to store data''))
      in case parsed of
           Inl e \<Rightarrow> (failed, db, r)
         | Inr body \<Rightarrow>
             if body = JNull then (failed, db, r)
             else
               (let ttl = member body (js ''ttl'');
                    cipherText = member body (js ''cipherText'');
                    iv = member body (js ''iv'')
                in if \<not> to_boolean ttl \<or> \<not> to_boolean cipherText \<or> \<not> to_boolean iv
                   then (Response 400
                           (ErrorMessage (js ''Missing required parameters: ttl, cipherText, iv'')),
                         db, r)
                   else
                     (case (ttl, cipherText, iv) of
                        (Some ttl_v, Some cipherText_v, Some iv_v) \<Rightarrow>
                          (case generateId 12 r of
                             Inl e \<Rightarrow> (failed, db, r)
                           | Inr (ident, r') \<Rightarrow>
                               (let now = JNumber (Finite (of_int (date_now div 1000)))
                                in case js_plus pf now ttl_v of
                                     Inl e \<Rightarrow> (failed, db, r')
                                   | Inr expiresAt \<Rightarrow>
                                       (case d1_insert pf db ident cipherText_v iv_v now
                                               expiresAt of
                                          Inl e \<Rightarrow> (failed, db, r')
                                        | Inr db' \<Rightarrow>
                                            (Response 200
                                               (SubmitData ident (origin @ js ''/'' @ ident)
                                                  expiresAt),
                                             db', r'))))
                      | _ \<Rightarrow>
                          (Response 400
                             (ErrorMessage
                                (js ''Missing required parameters: ttl, cipherText, iv'')),
                           db, r))))"

definition handle_fetch :: "platform \<Rightarrow> int \<Rightarrow> jsstring \<Rightarrow> db \<Rightarrow> response \<times> db" where
  \<comment> \<open>The route \<^verbatim>\<open>/api/fetch/{id}\<close>.\<close>
  "handle_fetch pf date_now ident db =
     (let now = date_now div 1000;
          result = db_select db ident
      in case result of
           None \<Rightarrow> (Response 404 (ErrorMessage (js ''Text not found'')), db)
         | Some found \<Rightarrow>
             (case less_than_number pf (row_expires_at found) (Finite (of_int now)) of
                Inl e \<Rightarrow> (Response 500 (ErrorMessage (js ''Failed to retrieve data'')), db)
              | Inr expired \<Rightarrow>
                  if expired
                  then (Response 410 (ErrorMessage (js ''Text has expired'')),
                        db_delete db ident)
                  else (Response 200
                          (FetchData (row_id found) (row_cipher_text found) (row_iv found)
                             (row_expires_at found)),
                        db)))"

record request =
  req_method :: jsstring
  req_origin :: jsstring
  req_path :: jsstring
  req_json :: "error + js_value"

definition starts_with :: "jsstring \<Rightarrow> jsstring \<Rightarrow> bool" where
  "starts_with s p \<longleftrightarrow> take (length p) s = p"

definition worker_fetch ::
  "platform \<Rightarrow> request \<Rightarrow> int \<Rightarrow> db \<Rightarrow> rng \<Rightarrow> response \<times> db \<times> rng" where
  \<comment> \<open>The exported \<^verbatim>\<open>fetch\<close>: the preflight, the two routes, the default answer.\<close>
  "worker_fetch pf req date_now db r =
     (let path = req_path req
      in if req_method req = js ''OPTIONS'' then (Response 200 NoBody, db, r)
         else if path = js ''/api/submit'' \<and> req_method req = js ''POST''
         then handle_submit pf (req_origin req) date_now (req_json req) db r
         else if starts_with path (js ''/api/fetch/'')
         then (case handle_fetch pf date_now (drop 11 path) db of (resp, db') \<Rightarrow> (resp, db', r))
         else (Response 200 Info, db, r))"

section \<open>URL-safe characters\<close>

definition base64url_alphabet :: jsstring where
  \<comment> \<open>The alphabet of RFC 4648, section 5.\<close>
  "base64url_alphabet = js ''ABCDEFGHIJKLMNOPQRSTUVWXYZabcdefghijklmnopqrstuvwxyz0123456789-_''"

definition uri_unreserved :: "code_unit \<Rightarrow> bool" where
  \<comment> \<open>The unreserved characters of RFC 3986: letters, digits, \<open>-\<close>, \<open>.\<close>, \<open>_\<close> and \<open>~\<close>.
      They stand for themselves in a URL path.\<close>
  "uri_unreserved c \<longleftrightarrow>
     (cu CHR ''A'' \<le> c \<and> c \<le> cu CHR ''Z'') \<or> (cu CHR ''a'' \<le> c \<and> c \<le> cu CHR ''z'') \<or>
     (cu CHR ''0'' \<le> c \<and> c \<le> cu CHR ''9'') \<or>
     c = cu CHR ''-'' \<or> c = cu CHR ''.'' \<or> c = cu CHR ''_'' \<or> c = cu CHR ''~''"

text \<open>
  The encoding the envelope is specified in: base64 with the URL-safe alphabet of RFC 4648,
  section 5, without padding. Three bytes give four characters; a last group of one or two
  bytes gives two or three. This definition follows the RFC, not the code; the code's
  \<^verbatim>\<open>base64urlEncode\<close> is compared with it.
\<close>

definition url_char :: "nat \<Rightarrow> code_unit" where
  "url_char n = base64url_alphabet ! n"

fun rfc4648_base64url :: "byte list \<Rightarrow> jsstring" where
  "rfc4648_base64url (a # b # c # rest) =
     (let n = unat a * 65536 + unat b * 256 + unat c
      in [url_char (n div 262144), url_char (n div 4096 mod 64),
          url_char (n div 64 mod 64), url_char (n mod 64)] @ rfc4648_base64url rest)"
| "rfc4648_base64url [a, b] =
     (let n = unat a * 1024 + unat b * 4
      in [url_char (n div 4096), url_char (n div 64 mod 64), url_char (n mod 64)])"
| "rfc4648_base64url [a] =
     (let n = unat a * 16
      in [url_char (n div 64), url_char (n mod 64)])"
| "rfc4648_base64url [] = []"

section \<open>Auxiliary definitions of the proofs\<close>

subsection \<open>The two parts of the encoder's output\<close>

text \<open>
  The encoder's output without its padding, and the padding alone; the two replacements
  of the URL-safe alphabet as functions on code units.
\<close>

fun b64_body :: "byte list \<Rightarrow> jsstring" where
  "b64_body (a # b # c # rest) =
     (let n = unat a * 65536 + unat b * 256 + unat c
      in [b64_char (n div 262144), b64_char (n div 4096 mod 64),
          b64_char (n div 64 mod 64), b64_char (n mod 64)] @ b64_body rest)"
| "b64_body [a, b] =
     (let n = unat a * 1024 + unat b * 4
      in [b64_char (n div 4096), b64_char (n div 64 mod 64), b64_char (n mod 64)])"
| "b64_body [a] =
     (let n = unat a * 16
      in [b64_char (n div 64), b64_char (n mod 64)])"
| "b64_body [] = []"

fun b64_pad :: "byte list \<Rightarrow> jsstring" where
  "b64_pad (a # b # c # rest) = b64_pad rest"
| "b64_pad [a, b] = [pad_char]"
| "b64_pad [a] = [pad_char, pad_char]"
| "b64_pad [] = []"

definition to_url :: "code_unit \<Rightarrow> code_unit" where
  "to_url x = (if x = cu CHR ''+'' then cu CHR ''-''
               else if x = cu CHR ''/'' then cu CHR ''_'' else x)"

definition from_url :: "code_unit \<Rightarrow> code_unit" where
  "from_url x = (if x = cu CHR ''-'' then cu CHR ''+''
                 else if x = cu CHR ''_'' then cu CHR ''/'' else x)"

subsection \<open>Well-formed strings\<close>

text \<open>
  A string is well formed when it has no unpaired surrogate
  (\<^verbatim>\<open>String.prototype.isWellFormed\<close>); a scalar value is a code point that is not a
  surrogate.
\<close>

fun well_formed :: "jsstring \<Rightarrow> bool" where
  "well_formed [] = True"
| "well_formed [c] = (\<not> is_lead_surrogate c \<and> \<not> is_trail_surrogate c)"
| "well_formed (c # d # s) =
     (if is_lead_surrogate c then is_trail_surrogate d \<and> well_formed s
      else \<not> is_trail_surrogate c \<and> well_formed (d # s))"

definition is_scalar :: "nat \<Rightarrow> bool" where
  "is_scalar cp \<longleftrightarrow> cp < 0x110000 \<and> (cp < 0xD800 \<or> 0xDFFF < cp)"

definition starts_with_bom :: "jsstring \<Rightarrow> bool" where
  "starts_with_bom s \<longleftrightarrow> (case s of [] \<Rightarrow> False | c # rest \<Rightarrow> c = 0xFEFF)"

subsection \<open>What the codec expects of the platform\<close>

text \<open>
  Two facts of AES-GCM that claims rely on: decryption under the key and nonce of the
  encryption returns the data, and an input shorter than the tag of 16 bytes is rejected.
\<close>

definition aead_correct :: "'k subtle_crypto \<Rightarrow> bool" where
  "aead_correct subtle \<longleftrightarrow>
     (\<forall>key iv data. aes_gcm_decrypt subtle key iv (aes_gcm_encrypt subtle key iv data) = Some data)"

definition aead_rejects_short :: "'k subtle_crypto \<Rightarrow> bool" where
  "aead_rejects_short subtle \<longleftrightarrow>
     (\<forall>key iv data. length data < 16 \<longrightarrow> aes_gcm_decrypt subtle key iv data = None)"

text \<open>
  \<^verbatim>\<open>decrypt(encrypt(P, W1), W2)\<close>: the envelope of an encryption handed to a decryption.
\<close>

definition round_trip ::
  "'k subtle_crypto \<Rightarrow> rng \<Rightarrow> jsstring \<Rightarrow> jsstring \<Rightarrow> jsstring \<Rightarrow> error + jsstring" where
  "round_trip subtle r text password1 password2 =
     (case encryptText subtle r text password1 of
        Inl e \<Rightarrow> Inl e
      | Inr (env, r') \<Rightarrow> decryptText subtle (env_cipherText env) (env_iv env) password2)"

subsection \<open>A transparent platform for the instances\<close>

text \<open>
  A transparent implementation of the interface, for the concrete instances: a key is
  the password followed by the salt, and a ciphertext is a tag of 16 bytes followed by the
  key and the nonce, each in a self-delimiting frame, and the data. Decryption returns
  the data under the key and the nonce of the encryption and rejects everything else.
\<close>

fun frame :: "byte list \<Rightarrow> byte list" where
  "frame [] = [0]"
| "frame (b # bs) = 1 # b # frame bs"

fun unframe :: "byte list \<Rightarrow> (byte list \<times> byte list) option" where
  "unframe [] = None"
| "unframe [t] = (if t = 0 then Some ([], []) else None)"
| "unframe (t # b # rest) =
     (if t = 0 then Some ([], b # rest)
      else (case unframe rest of
              None \<Rightarrow> None
            | Some (k, rest') \<Rightarrow> Some (b # k, rest')))"

definition model_tag :: "byte list" where
  "model_tag = replicate 16 0xAA"

definition model_subtle :: "(byte list) subtle_crypto" where
  "model_subtle =
     \<lparr>pbkdf2 = (\<lambda>pw salt n. pw @ salt),
      aes_gcm_encrypt = (\<lambda>key iv data. model_tag @ frame key @ frame iv @ data),
      aes_gcm_decrypt = (\<lambda>key iv ct.
         if length ct < 16 \<or> take 16 ct \<noteq> model_tag then None
         else (case unframe (drop 16 ct) of
                 None \<Rightarrow> None
               | Some (k, rest) \<Rightarrow>
                   (case unframe rest of
                      None \<Rightarrow> None
                    | Some (v, data) \<Rightarrow> if k = key \<and> v = iv then Some data else None)))\<rparr>"

subsection \<open>Inputs of the instances\<close>

text \<open>A random source for the concrete instances: the bytes 250, 35, 76, ...\<close>

definition sample_rng :: rng where
  "sample_rng = (\<lambda>i. of_nat (41 * i + 250))"

text \<open>
  A stored record, a table that holds it, a source whose first identifier is that record's
  and whose second is not, and a well-formed submit body with a given \<^verbatim>\<open>ttl\<close>.
\<close>

definition stored_row :: row where
  "stored_row = \<lparr>row_id = js ''AAAAAAAAAAAA'', row_cipher_text = JString (js ''expireTest''),
                  row_iv = JString (js ''expireIV''),
                  row_created_at = JNumber (Finite 1700000000),
                  row_expires_at = JNumber (Finite 1700000001)\<rparr>"

definition stored_db :: db where
  "stored_db = Map.empty(js ''AAAAAAAAAAAA'' \<mapsto> stored_row)"

definition colliding_rng :: rng where
  "colliding_rng = (\<lambda>i. if i < 9 then 0 else 255)"

definition sample_body :: "js_value \<Rightarrow> js_value" where
  "sample_body ttl = JObject [(js ''ttl'', ttl), (js ''cipherText'', JString (js ''c1'')),
                             (js ''iv'', JString (js ''v1''))]"

section \<open>The base64url codec inverts itself\<close>

subsection \<open>Arithmetic of the 24-bit groups\<close>

lemma sextets_recombine:
  "((n div 262144 * 64 + n div 4096 mod 64) * 64 + n div 64 mod 64) * 64 + n mod 64 = (n::nat)"
proof -
  have a: "n div 4096 = n div 64 div 64"
    using div_mult2_eq [of n 64 64] by simp
  have b: "n div 262144 = n div 64 div 64 div 64"
    using div_mult2_eq [of n 4096 64] a by simp
  show ?thesis unfolding a b by simp
qed

lemma sextets_recombine2:
  "(n div 4096 * 64 + n div 64 mod 64) * 64 + n mod 64 = (n::nat)"
proof -
  have a: "n div 4096 = n div 64 div 64"
    using div_mult2_eq [of n 64 64] by simp
  show ?thesis unfolding a by simp
qed

lemma div_mod_base:
  "z < b \<Longrightarrow> (q * b + z) div b = (q::nat)" "z < b \<Longrightarrow> (q * b + z) mod b = z"
  by simp_all

lemma bytes_of_triple:
  assumes "x < 256" "y < 256" "z < (256::nat)"
  shows "(x * 65536 + y * 256 + z) div 65536 = x"
    and "(x * 65536 + y * 256 + z) div 256 mod 256 = y"
    and "(x * 65536 + y * 256 + z) mod 256 = z"
proof -
  have e: "x * 65536 + y * 256 + z = (x * 256 + y) * 256 + z" by simp
  have f: "x * 65536 + y * 256 + z = x * 65536 + (y * 256 + z)" by simp
  have g: "y * 256 + z < 65536" using assms by linarith
  show "(x * 65536 + y * 256 + z) div 65536 = x"
    unfolding f using g by (rule div_mod_base)
  have h: "(x * 65536 + y * 256 + z) div 256 = x * 256 + y"
    unfolding e using assms(3) by (rule div_mod_base)
  show "(x * 65536 + y * 256 + z) div 256 mod 256 = y"
    unfolding h using assms(2) by (rule div_mod_base)
  show "(x * 65536 + y * 256 + z) mod 256 = z"
    unfolding e using assms(3) by (rule div_mod_base)
qed

lemma bytes_of_pair:
  assumes "x < 256" "y < (256::nat)"
  shows "(x * 1024 + y * 4) div 4 div 256 = x"
    and "(x * 1024 + y * 4) div 4 mod 256 = y"
proof -
  have e: "(x * 1024 + y * 4) div 4 = x * 256 + y" by simp
  show "(x * 1024 + y * 4) div 4 div 256 = x" unfolding e using assms(2) by (rule div_mod_base)
  show "(x * 1024 + y * 4) div 4 mod 256 = y" unfolding e using assms(2) by (rule div_mod_base)
qed

lemma unat_byte_less: "unat (a :: byte) < 256"
  using unsigned_less [of a, where ?'a = nat] by simp

lemma triple_bound:
  "unat (a::byte) * 65536 + unat (b::byte) * 256 + unat (c::byte) < 16777216"
  using unat_byte_less [of a] unat_byte_less [of b] unat_byte_less [of c] by linarith

lemma pair_bound: "unat (a::byte) * 1024 + unat (b::byte) * 4 < 262144"
  using unat_byte_less [of a] unat_byte_less [of b] by linarith

lemma single_bound: "unat (a::byte) * 16 < 4096"
  using unat_byte_less [of a] by linarith

lemma ucast_byte_round: "map ucast (map ucast (bs :: byte list) :: jsstring) = bs"
  by (simp add: comp_def ucast_down_ucast_id is_down)

lemma ucast_byte_le: "(ucast (b :: byte) :: code_unit) \<le> 0xFF"
proof -
  have "unat b < 2 ^ 16" using unat_byte_less [of b] by simp
  then have "unat (ucast b :: code_unit) = unat b"
    by (simp add: unsigned_ucast_eq take_bit_nat_eq_self)
  then have "unat (ucast b :: code_unit) \<le> unat (0xFF :: code_unit)"
    using unat_byte_less [of b] by simp
  then show ?thesis by (simp only: word_le_nat_alt)
qed

subsection \<open>The alphabet\<close>

lemma takeWhile_nth_distinct:
  "distinct xs \<Longrightarrow> n < length xs \<Longrightarrow> length (takeWhile (\<lambda>x. x \<noteq> xs ! n) xs) = n"
proof (induction xs arbitrary: n)
  case Nil
  then show ?case by simp
next
  case (Cons a xs)
  show ?case
  proof (cases n)
    case 0
    then show ?thesis by simp
  next
    case (Suc m)
    with Cons.prems have "xs ! m \<in> set xs" "a \<notin> set xs" by auto
    then have "a \<noteq> xs ! m" by auto
    with Suc Cons show ?thesis by simp
  qed
qed

lemma length_base64_alphabet: "length base64_alphabet = 64"
  by (simp add: base64_alphabet_def js_def)

lemma distinct_base64_alphabet: "distinct base64_alphabet"
  by (simp add: base64_alphabet_def js_def cu_def)

lemma b64_index_char: "n < 64 \<Longrightarrow> b64_index (b64_char n) = n"
  unfolding b64_index_def b64_char_def
  by (rule takeWhile_nth_distinct) (simp_all add: distinct_base64_alphabet length_base64_alphabet)

lemma b64_char_mem: "n < 64 \<Longrightarrow> b64_char n \<in> set base64_alphabet"
  by (simp add: b64_char_def length_base64_alphabet)

lemma alphabet_not_pad: "x \<in> set base64_alphabet \<Longrightarrow> x \<noteq> pad_char"
  by (auto simp: base64_alphabet_def js_def pad_char_def cu_def)

lemma alphabet_not_whitespace: "x \<in> set base64_alphabet \<Longrightarrow> \<not> is_ascii_whitespace x"
  by (auto simp: base64_alphabet_def js_def is_ascii_whitespace_def cu_def)

lemma alphabet_to_url_not_pad: "x \<in> set base64_alphabet \<Longrightarrow> to_url x \<noteq> pad_char"
  by (auto simp: base64_alphabet_def js_def pad_char_def to_url_def cu_def)

lemma alphabet_from_to_url: "x \<in> set base64_alphabet \<Longrightarrow> from_url (to_url x) = x"
  by (auto simp: base64_alphabet_def js_def to_url_def from_url_def cu_def)

lemma pad_not_whitespace: "\<not> is_ascii_whitespace pad_char"
  by (simp add: is_ascii_whitespace_def pad_char_def cu_def)

lemma to_url_pad: "to_url pad_char = pad_char"
  by (simp add: to_url_def pad_char_def cu_def)

subsection \<open>The encoder's output\<close>

lemma base64_encode_decomp: "base64_encode bs = b64_body bs @ b64_pad bs"
  by (induction bs rule: base64_encode.induct) (simp_all add: Let_def)

lemma b64_pad_cases:
  "b64_pad bs = [] \<or> b64_pad bs = [pad_char] \<or> b64_pad bs = [pad_char, pad_char]"
  by (induction bs rule: b64_pad.induct) simp_all

lemma b64_body_alphabet: "set (b64_body bs) \<subseteq> set base64_alphabet"
proof (induction bs rule: b64_body.induct)
  case (1 a b c rest)
  have "(unat a * 65536 + unat b * 256 + unat c) div 262144 < 64"
    using triple_bound [of a b c] by simp
  with 1 show ?case by (simp add: Let_def b64_char_mem)
next
  case (2 a b)
  have "(unat a * 1024 + unat b * 4) div 4096 < 64" using pair_bound [of a b] by simp
  then show ?case by (simp add: Let_def b64_char_mem)
next
  case (3 a)
  have "(unat a * 16) div 64 < 64" using single_bound [of a] by simp
  then show ?case by (simp add: Let_def b64_char_mem)
next
  case 4
  then show ?case by simp
qed

lemma length_b64_body_mod: "length (b64_body bs) mod 4 \<noteq> Suc 0"
  by (induction bs rule: b64_body.induct) (simp_all add: Let_def)

lemma length_base64_encode: "length (base64_encode bs) mod 4 = 0"
  by (induction bs rule: base64_encode.induct) (simp_all add: Let_def)

lemma decode_b64_body: "decode_sextets (map b64_index (b64_body bs)) = bs"
proof (induction bs rule: b64_body.induct)
  case (1 a b c rest)
  define n where "n = unat a * 65536 + unat b * 256 + unat c"
  have s: "n div 262144 < 64" using triple_bound [of a b c] by (simp add: n_def)
  have r: "((n div 262144 * 64 + n div 4096 mod 64) * 64 + n div 64 mod 64) * 64 + n mod 64 = n"
    by (rule sextets_recombine)
  have b: "n div 65536 = unat a" "n div 256 mod 256 = unat b" "n mod 256 = unat c"
    unfolding n_def by (rule bytes_of_triple; rule unat_byte_less)+
  have "map b64_index (b64_body (a # b # c # rest))
      = n div 262144 # n div 4096 mod 64 # n div 64 mod 64 # n mod 64
        # map b64_index (b64_body rest)"
    using s by (simp add: Let_def b64_index_char flip: n_def)
  then have "decode_sextets (map b64_index (b64_body (a # b # c # rest)))
      = [of_nat (n div 65536), of_nat (n div 256 mod 256), of_nat (n mod 256)]
        @ decode_sextets (map b64_index (b64_body rest))"
    by (simp only: decode_sextets.simps Let_def r)
  with 1 show ?case by (simp only: b of_nat_unat ucast_id append.simps)
next
  case (2 a b)
  define n where "n = unat a * 1024 + unat b * 4"
  have s: "n div 4096 < 64" using pair_bound [of a b] by (simp add: n_def)
  have r: "(n div 4096 * 64 + n div 64 mod 64) * 64 + n mod 64 = n"
    by (rule sextets_recombine2)
  have b: "n div 4 div 256 = unat a" "n div 4 mod 256 = unat b"
    unfolding n_def by (rule bytes_of_pair; rule unat_byte_less)+
  have "map b64_index (b64_body [a, b]) = [n div 4096, n div 64 mod 64, n mod 64]"
    using s by (simp add: Let_def b64_index_char flip: n_def)
  then have "decode_sextets (map b64_index (b64_body [a, b]))
      = [of_nat (n div 4 div 256), of_nat (n div 4 mod 256)]"
    by (simp only: decode_sextets.simps Let_def r)
  then show ?case by (simp only: b of_nat_unat ucast_id)
next
  case (3 a)
  define n where "n = unat a * 16"
  have s: "n div 64 < 64" using single_bound [of a] by (simp add: n_def)
  have r: "n div 64 * 64 + n mod 64 = n" by simp
  have "map b64_index (b64_body [a]) = [n div 64, n mod 64]"
    using s by (simp add: Let_def b64_index_char flip: n_def)
  then have "decode_sextets (map b64_index (b64_body [a])) = [of_nat (n div 16)]"
    by (simp only: decode_sextets.simps r)
  then show ?case by (simp add: n_def)
next
  case 4
  then show ?case by simp
qed

subsection \<open>Padding: the loop and its inverse\<close>

lemma pad_loop_aligned: "length s mod 4 = 0 \<Longrightarrow> pad_loop s = s"
  by (subst pad_loop.simps) simp

lemma pad_loop_quad: "pad_loop (c1 # c2 # c3 # c4 # s) = c1 # c2 # c3 # c4 # pad_loop s"
proof (induction s rule: pad_loop.induct)
  case (1 s)
  show ?case
  proof (cases "length s mod 4 = 0")
    case True
    then show ?thesis by (simp add: pad_loop_aligned)
  next
    case False
    then have "pad_loop (c1 # c2 # c3 # c4 # s) = pad_loop (c1 # c2 # c3 # c4 # s @ js ''='')"
      by (subst pad_loop.simps) simp
    also have "\<dots> = c1 # c2 # c3 # c4 # pad_loop (s @ js ''='')"
      using False "1.IH" by simp
    also have "pad_loop (s @ js ''='') = pad_loop s"
      using False by (subst (2) pad_loop.simps) simp
    finally show ?thesis .
  qed
qed

lemma pad_loop_b64_body: "pad_loop (b64_body bs) = base64_encode bs"
proof (induction bs rule: b64_body.induct)
  case (1 a b c rest)
  then show ?case by (simp add: Let_def pad_loop_quad)
next
  case (2 a b)
  show ?case by (subst pad_loop.simps) (simp add: Let_def js_def pad_char_def pad_loop_aligned)
next
  case (3 a)
  have "pad_loop [x, y] = [x, y, pad_char, pad_char]" for x y
    by (subst pad_loop.simps, simp add: js_def, subst pad_loop.simps)
       (simp add: js_def pad_char_def pad_loop_aligned)
  then show ?case by (simp add: Let_def)
next
  case 4
  show ?case by (simp add: pad_loop_aligned)
qed

lemma strip_padding_none: "pad_char \<notin> set s \<Longrightarrow> strip_padding s = s"
proof -
  assume a: "pad_char \<notin> set s"
  have "drop n s \<noteq> pad_char # t" for n t
  proof
    assume "drop n s = pad_char # t"
    then have "pad_char \<in> set (drop n s)" by simp
    then show False using a set_drop_subset [of n s] by auto
  qed
  then show ?thesis by (simp add: strip_padding_def)
qed

lemma strip_padding_one: "pad_char \<notin> set s \<Longrightarrow> strip_padding (s @ [pad_char]) = s"
proof -
  assume a: "pad_char \<notin> set s"
  have "drop (length s - Suc 0) s \<noteq> [pad_char]"
  proof
    assume "drop (length s - Suc 0) s = [pad_char]"
    then have "pad_char \<in> set (drop (length s - Suc 0) s)" by simp
    then show False using a set_drop_subset [of "length s - Suc 0" s] by auto
  qed
  then show ?thesis by (cases "s = []") (auto simp: strip_padding_def)
qed

lemma strip_padding_two: "strip_padding (s @ [pad_char, pad_char]) = s"
  by (simp add: strip_padding_def)

lemma strip_padding_encode: "strip_padding (base64_encode bs) = b64_body bs"
proof -
  have "pad_char \<notin> set (b64_body bs)"
    using b64_body_alphabet [of bs] alphabet_not_pad by auto
  then show ?thesis
    using b64_pad_cases [of bs]
    by (auto simp: base64_encode_decomp strip_padding_none strip_padding_one strip_padding_two)
qed

subsection \<open>The replacements\<close>

lemma replace_all_single:
  "replace_all c [d] s = map (\<lambda>x. if x = c then d else x) s"
  by (induction s) (simp_all add: replace_all_def)

lemma replace_all_empty: "replace_all c [] s = filter (\<lambda>x. x \<noteq> c) s"
  by (induction s) (simp_all add: replace_all_def)

lemma url_replace_encode:
  "replace_all (cu CHR ''='') (js '''')
     (replace_all (cu CHR ''/'') (js ''_'')
       (replace_all (cu CHR ''+'') (js ''-'') s))
   = filter (\<lambda>x. x \<noteq> pad_char) (map to_url s)"
proof -
  have "(if (if x = cu CHR ''+'' then cu CHR ''-'' else x) = cu CHR ''/'' then cu CHR ''_''
         else (if x = cu CHR ''+'' then cu CHR ''-'' else x)) = to_url x" for x
    by (simp add: to_url_def cu_def)
  then show ?thesis
    by (simp add: js_def replace_all_single replace_all_empty pad_char_def comp_def)
qed

lemma url_replace_decode:
  "replace_all (cu CHR ''_'') (js ''/'') (replace_all (cu CHR ''-'') (js ''+'') s)
   = map from_url s"
proof -
  have "(if (if x = cu CHR ''-'' then cu CHR ''+'' else x) = cu CHR ''_'' then cu CHR ''/''
         else (if x = cu CHR ''-'' then cu CHR ''+'' else x)) = from_url x" for x
    by (simp add: from_url_def cu_def)
  then show ?thesis
    by (simp add: js_def replace_all_single comp_def)
qed

subsection \<open>Encoding and decoding\<close>

lemma btoa_bytes: "btoa (map ucast (bs :: byte list)) = Inr (base64_encode bs)"
proof -
  have "\<not> list_ex (\<lambda>c. 0xFF < c) (map ucast bs :: jsstring)"
    using ucast_byte_le by (auto simp: list_ex_iff not_less)
  then show ?thesis by (simp only: btoa_def ucast_byte_round if_False)
qed

lemma base64urlEncode_eq: "base64urlEncode bs = Inr (map to_url (b64_body bs))"
proof -
  have body: "filter (\<lambda>x. x \<noteq> pad_char) (map to_url (b64_body bs)) = map to_url (b64_body bs)"
    using b64_body_alphabet [of bs] by (auto simp: filter_id_conv alphabet_to_url_not_pad)
  have pad: "filter (\<lambda>x. x \<noteq> pad_char) (map to_url (b64_pad bs)) = []"
    using b64_pad_cases [of bs] by (auto simp: to_url_pad)
  show ?thesis
    by (simp add: base64urlEncode_def btoa_bytes url_replace_encode base64_encode_decomp body pad)
qed

lemma atob_base64_encode: "atob (base64_encode bs) = Inr (map ucast bs)"
proof -
  have "\<not> is_ascii_whitespace c" if "c \<in> set (base64_encode bs)" for c
    using that b64_body_alphabet [of bs] b64_pad_cases [of bs]
    by (auto simp: base64_encode_decomp alphabet_not_whitespace pad_not_whitespace)
  then have ws: "filter (\<lambda>c. \<not> is_ascii_whitespace c) (base64_encode bs) = base64_encode bs"
    by (simp add: filter_id_conv)
  have al: "\<not> list_ex (\<lambda>c. c \<notin> set base64_alphabet) (b64_body bs)"
    using b64_body_alphabet [of bs] by (auto simp: list_ex_iff)
  show ?thesis
    by (simp add: atob_def ws length_base64_encode strip_padding_encode length_b64_body_mod al
        decode_b64_body)
qed

lemma from_to_url_body: "map from_url (map to_url (b64_body bs)) = b64_body bs"
proof -
  have "map from_url (map to_url xs) = xs" if "set xs \<subseteq> set base64_alphabet" for xs
    using that by (induction xs) (simp_all add: alphabet_from_to_url)
  then show ?thesis using b64_body_alphabet by blast
qed

lemma base64urlDecode_encoded: "base64urlDecode (map to_url (b64_body bs)) = Inr bs"
  by (simp only: base64urlDecode_def url_replace_decode from_to_url_body pad_loop_b64_body
      atob_base64_encode Let_def sum.case ucast_byte_round)

section \<open>Text survives UTF-8 when it is well formed\<close>

lemma lead_nat: "is_lead_surrogate c \<longleftrightarrow> 0xD800 \<le> unat c \<and> unat c \<le> 0xDBFF"
  by (simp add: is_lead_surrogate_def word_le_nat_alt)

lemma trail_nat: "is_trail_surrogate c \<longleftrightarrow> 0xDC00 \<le> unat c \<and> unat c \<le> 0xDFFF"
  by (simp add: is_trail_surrogate_def word_le_nat_alt)

lemma unat_unit_less: "unat (c :: code_unit) < 65536"
  using unsigned_less [of c, where ?'a = nat] by simp

lemma pair_value:
  assumes "is_lead_surrogate c" "is_trail_surrogate d"
  shows "is_scalar (0x10000 + (unat c - 0xD800) * 0x400 + (unat d - 0xDC00))"
    and "utf16_units (0x10000 + (unat c - 0xD800) * 0x400 + (unat d - 0xDC00)) = [c, d]"
proof -
  define x y where "x = unat c - 0xD800" and "y = unat d - 0xDC00"
  have xy: "x < 1024" "y < 1024" "unat c = 0xD800 + x" "unat d = 0xDC00 + y"
    using assms by (auto simp: lead_nat trail_nat x_def y_def)
  show "is_scalar (0x10000 + (unat c - 0xD800) * 0x400 + (unat d - 0xDC00))"
    using xy(1,2) unfolding is_scalar_def x_def [symmetric] y_def [symmetric] by linarith
  have "(x * 1024 + y) div 1024 = x" "(x * 1024 + y) mod 1024 = y"
    using xy(2) by (rule div_mod_base)+
  then have "utf16_units (0x10000 + x * 0x400 + y) = [of_nat (0xD800 + x), of_nat (0xDC00 + y)]"
    by (simp add: utf16_units_def)
  then show "utf16_units (0x10000 + (unat c - 0xD800) * 0x400 + (unat d - 0xDC00)) = [c, d]"
    unfolding x_def [symmetric] y_def [symmetric] xy(3,4) [symmetric] by simp
qed

lemma single_value:
  assumes "\<not> is_lead_surrogate c" "\<not> is_trail_surrogate c"
  shows "is_scalar (unat c)" and "utf16_units (unat c) = [c]"
  using assms unat_unit_less [of c]
  by (auto simp: lead_nat trail_nat is_scalar_def utf16_units_def)

lemma scalar_values_well_formed:
  "well_formed s \<Longrightarrow> list_all is_scalar (scalar_values s) \<and> concat (map utf16_units (scalar_values s)) = s"
proof (induction s rule: well_formed.induct)
  case 1
  then show ?case by simp
next
  case (2 c)
  then show ?case by (simp add: single_value)
next
  case (3 c d s)
  then show ?case by (auto simp: pair_value single_value)
qed

lemma mod_offset: "x < m \<Longrightarrow> (k * m + x) mod m = (x::nat)"
  by simp

lemma cont_mod: "x < 64 \<Longrightarrow> (128 + x) mod 64 = (x::nat)"
  using mod_offset [of x 64 2] by simp

lemma lead2_mod: "a < 32 \<Longrightarrow> (192 + a) mod 32 = (a::nat)"
  using mod_offset [of a 32 6] by simp

lemma lead3_mod: "a < 16 \<Longrightarrow> (224 + a) mod 16 = (a::nat)"
  using mod_offset [of a 16 14] by simp

lemma lead4_mod: "a < 8 \<Longrightarrow> (240 + a) mod 8 = (a::nat)"
  using mod_offset [of a 8 30] by simp

lemma decoder_ascii:
  "b \<le> 0x7F \<Longrightarrow> utf8_decoder cp seen 0 lo hi (b # q) = b # utf8_decoder cp seen 0 lo hi q"
  by (simp add: utf8_decoder.simps)

lemma decoder_lead2:
  "2 \<le> a \<Longrightarrow> a < 32 \<Longrightarrow>
   utf8_decoder cp seen 0 lo hi ((0xC0 + a) # q) = utf8_decoder a seen 1 lo hi q"
  by (simp add: utf8_decoder.simps lead2_mod)

lemma decoder_lead3:
  "a < 16 \<Longrightarrow>
   utf8_decoder cp seen 0 lo hi ((0xE0 + a) # q)
     = utf8_decoder a seen 2 (if a = 0 then 0xA0 else lo) (if a = 13 then 0x9F else hi) q"
  by (simp add: utf8_decoder.simps lead3_mod)

lemma decoder_lead4:
  "a < 5 \<Longrightarrow>
   utf8_decoder cp seen 0 lo hi ((0xF0 + a) # q)
     = utf8_decoder a seen 3 (if a = 0 then 0x90 else lo) (if a = 4 then 0x8F else hi) q"
  by (simp add: utf8_decoder.simps lead4_mod)

lemma decoder_cont_more:
  assumes "0 < needed" "lo \<le> 0x80 + x" "0x80 + x \<le> hi" "x < 64" "Suc seen \<noteq> needed"
  shows "utf8_decoder cp seen needed lo hi ((0x80 + x) # q)
     = utf8_decoder (cp * 64 + x) (Suc seen) needed 0x80 0xBF q"
  using assms by (simp add: utf8_decoder.simps Let_def cont_mod not_less)

lemma decoder_cont_last:
  assumes "0 < needed" "lo \<le> 0x80 + x" "0x80 + x \<le> hi" "x < 64" "Suc seen = needed"
  shows "utf8_decoder cp seen needed lo hi ((0x80 + x) # q)
     = (cp * 64 + x) # utf8_decoder 0 0 0 0x80 0xBF q"
  using assms by (simp add: utf8_decoder.simps Let_def cont_mod not_less)

lemma decode_scalar:
  assumes "is_scalar cp"
  shows "utf8_decoder 0 0 0 0x80 0xBF (utf8_encode_scalar cp @ q)
           = cp # utf8_decoder 0 0 0 0x80 0xBF q"
proof -
  consider "cp \<le> 0x7F" | "0x7F < cp" "cp \<le> 0x7FF" | "0x7FF < cp" "cp \<le> 0xFFFF"
    | "0xFFFF < cp" by linarith
  then show ?thesis
  proof cases
    case 1
    then show ?thesis by (simp add: utf8_encode_scalar_def decoder_ascii)
  next
    case 2
    define a d where "a = cp div 64" and "d = cp mod 64"
    have cp: "a * 64 + d = cp" by (simp add: a_def d_def)
    have d: "d < 64" by (simp add: d_def)
    have a: "2 \<le> a" "a < 32" using 2 cp d by linarith+
    have "utf8_decoder 0 0 0 0x80 0xBF ((0xC0 + a) # (0x80 + d) # q)
        = utf8_decoder a 0 1 0x80 0xBF ((0x80 + d) # q)"
      using a by (rule decoder_lead2)
    also have "\<dots> = (a * 64 + d) # utf8_decoder 0 0 0 0x80 0xBF q"
      by (rule decoder_cont_last) (use d in simp_all)
    finally have "utf8_decoder 0 0 0 0x80 0xBF ((0xC0 + a) # (0x80 + d) # q)
        = cp # utf8_decoder 0 0 0 0x80 0xBF q"
      by (simp only: cp)
    then show ?thesis using 2 by (simp add: utf8_encode_scalar_def a_def d_def)
  next
    case 3
    define a b d where "a = cp div 4096" and "b = cp div 64 mod 64" and "d = cp mod 64"
    define L U :: nat where "L = (if a = 0 then 0xA0 else 0x80)"
      and "U = (if a = 13 then 0x9F else 0xBF)"
    have cp: "(a * 64 + b) * 64 + d = cp"
      unfolding a_def b_def d_def by (rule sextets_recombine2)
    have bd: "b < 64" "d < 64" by (simp_all add: b_def d_def)
    have cpl: "a * 4096 + b * 64 + d = cp" using cp by (simp add: algebra_simps)
    have a: "a < 16" using 3 cpl bd by linarith
    have lo: "a = 0 \<Longrightarrow> 32 \<le> b" using 3 cpl bd by linarith
    have hi: "a = 13 \<Longrightarrow> b < 32" using assms 3 cpl bd unfolding is_scalar_def by linarith
    have LU: "L \<le> 0x80 + b" "0x80 + b \<le> U" using lo hi bd by (auto simp: L_def U_def)
    have "utf8_decoder 0 0 0 0x80 0xBF ((0xE0 + a) # (0x80 + b) # (0x80 + d) # q)
        = utf8_decoder a 0 2 L U ((0x80 + b) # (0x80 + d) # q)"
      unfolding L_def U_def using a by (rule decoder_lead3)
    also have "\<dots> = utf8_decoder (a * 64 + b) (Suc 0) 2 0x80 0xBF ((0x80 + d) # q)"
      by (rule decoder_cont_more) (use LU bd in simp_all)
    also have "\<dots> = ((a * 64 + b) * 64 + d) # utf8_decoder 0 0 0 0x80 0xBF q"
      by (rule decoder_cont_last) (use bd in simp_all)
    finally have "utf8_decoder 0 0 0 0x80 0xBF ((0xE0 + a) # (0x80 + b) # (0x80 + d) # q)
        = cp # utf8_decoder 0 0 0 0x80 0xBF q"
      by (simp only: cp)
    then show ?thesis using 3 by (simp add: utf8_encode_scalar_def a_def b_def d_def)
  next
    case 4
    define a b c d where "a = cp div 262144" and "b = cp div 4096 mod 64"
      and "c = cp div 64 mod 64" and "d = cp mod 64"
    define L U :: nat where "L = (if a = 0 then 0x90 else 0x80)"
      and "U = (if a = 4 then 0x8F else 0xBF)"
    have cp: "((a * 64 + b) * 64 + c) * 64 + d = cp"
      unfolding a_def b_def c_def d_def by (rule sextets_recombine)
    have bd: "b < 64" "c < 64" "d < 64" by (simp_all add: b_def c_def d_def)
    have cpl: "a * 262144 + b * 4096 + c * 64 + d = cp" using cp by (simp add: algebra_simps)
    have a: "a < 5" using assms cpl bd unfolding is_scalar_def by linarith
    have lo: "a = 0 \<Longrightarrow> 16 \<le> b" using 4 cpl bd by linarith
    have hi: "a = 4 \<Longrightarrow> b < 16" using assms cpl bd unfolding is_scalar_def by linarith
    have LU: "L \<le> 0x80 + b" "0x80 + b \<le> U" using lo hi bd by (auto simp: L_def U_def)
    have "utf8_decoder 0 0 0 0x80 0xBF
            ((0xF0 + a) # (0x80 + b) # (0x80 + c) # (0x80 + d) # q)
        = utf8_decoder a 0 3 L U ((0x80 + b) # (0x80 + c) # (0x80 + d) # q)"
      unfolding L_def U_def using a by (rule decoder_lead4)
    also have "\<dots> = utf8_decoder (a * 64 + b) (Suc 0) 3 0x80 0xBF ((0x80 + c) # (0x80 + d) # q)"
      by (rule decoder_cont_more) (use LU bd in simp_all)
    also have "\<dots> = utf8_decoder ((a * 64 + b) * 64 + c) (Suc (Suc 0)) 3 0x80 0xBF
                       ((0x80 + d) # q)"
      by (rule decoder_cont_more) (use bd in simp_all)
    also have "\<dots> = (((a * 64 + b) * 64 + c) * 64 + d) # utf8_decoder 0 0 0 0x80 0xBF q"
      by (rule decoder_cont_last) (use bd in simp_all)
    finally have "utf8_decoder 0 0 0 0x80 0xBF
            ((0xF0 + a) # (0x80 + b) # (0x80 + c) # (0x80 + d) # q)
        = cp # utf8_decoder 0 0 0 0x80 0xBF q"
      by (simp only: cp)
    then show ?thesis using 4 by (simp add: utf8_encode_scalar_def a_def b_def c_def d_def)
  qed
qed

lemma decode_scalars:
  "list_all is_scalar cps \<Longrightarrow>
   utf8_decoder 0 0 0 0x80 0xBF (concat (map utf8_encode_scalar cps)) = cps"
  by (induction cps) (simp_all add: utf8_decoder.simps(1) decode_scalar)

lemma utf8_encode_scalar_bytes:
  assumes "is_scalar cp"
  shows "list_all (\<lambda>b. b < 256) (utf8_encode_scalar cp)"
proof -
  have "cp < 16 * 262144" using assms by (simp add: is_scalar_def)
  then have a: "cp div 262144 < 16" by simp
  have b: "cp \<le> 0x7FF \<Longrightarrow> cp div 64 < 32" by simp
  have c: "cp \<le> 0xFFFF \<Longrightarrow> cp div 4096 < 16" by simp
  have m: "cp mod 64 < 64" "cp div 64 mod 64 < 64" "cp div 4096 mod 64 < 64" by simp_all
  show ?thesis
    unfolding utf8_encode_scalar_def using a b c m by (auto simp: not_le)
qed

lemma unat_of_nat_byte: "x < 256 \<Longrightarrow> unat (of_nat x :: byte) = x"
  by (simp add: unat_of_nat)

lemma unat_of_nat_bytes:
  "list_all (\<lambda>b. b < 256) xs \<Longrightarrow> map unat (map of_nat xs :: byte list) = xs"
  by (induction xs) (simp_all add: unat_of_nat_byte)

lemma encoded_bytes:
  "list_all is_scalar cps \<Longrightarrow> list_all (\<lambda>b. b < 256) (concat (map utf8_encode_scalar cps))"
  by (induction cps) (simp_all add: utf8_encode_scalar_bytes)

lemma decoder_of_encoder:
  assumes "well_formed s"
  shows "utf8_decoder 0 0 0 0x80 0xBF (map unat (TextEncoder_encode s)) = scalar_values s"
proof -
  have sc: "list_all is_scalar (scalar_values s)"
    using assms by (simp add: scalar_values_well_formed)
  show ?thesis
    unfolding TextEncoder_encode_def
    by (simp only: unat_of_nat_bytes [OF encoded_bytes [OF sc]] decode_scalars [OF sc])
qed

lemma scalar_values_plain:
  assumes "\<not> is_lead_surrogate c" "\<not> is_trail_surrogate c"
  shows "scalar_values (c # s) = unat c # scalar_values s"
    and "well_formed (c # s) = well_formed s"
  using assms by (cases s; simp)+

lemma bom_not_surrogate:
  "\<not> is_lead_surrogate 0xFEFF" "\<not> is_trail_surrogate 0xFEFF"
  by (simp_all add: is_lead_surrogate_def is_trail_surrogate_def)

lemma first_scalar_value:
  assumes "well_formed (c # s)" "c \<noteq> 0xFEFF"
  shows "\<exists>v vs. scalar_values (c # s) = v # vs \<and> v \<noteq> 0xFEFF"
proof (cases "is_lead_surrogate c")
  case True
  then obtain d s' where s: "s = d # s'" "is_trail_surrogate d"
    using assms(1) by (cases s) auto
  then show ?thesis using True by simp
next
  case False
  then have t: "\<not> is_trail_surrogate c" using assms(1) by (cases s) auto
  have "unat c \<noteq> 0xFEFF"
  proof
    assume "unat c = 0xFEFF"
    then have "of_nat (unat c) = (0xFEFF :: code_unit)" by simp
    then show False using assms(2) by simp
  qed
  then show ?thesis using False t by (simp add: scalar_values_plain)
qed

lemma decode_encode_text:
  assumes "well_formed s"
  shows "TextDecoder_decode (TextEncoder_encode s)
           = (case s of [] \<Rightarrow> [] | c # rest \<Rightarrow> if c = 0xFEFF then rest else s)"
proof -
  have dec: "TextDecoder_decode (TextEncoder_encode s)
      = concat (map utf16_units
          (case scalar_values s of [] \<Rightarrow> []
           | c # rest \<Rightarrow> if c = 0xFEFF then rest else scalar_values s))"
    by (simp only: TextDecoder_decode_def decoder_of_encoder [OF assms] Let_def)
  show ?thesis
  proof (cases s)
    case Nil
    then show ?thesis unfolding dec by simp
  next
    case (Cons c rest)
    show ?thesis
    proof (cases "c = 0xFEFF")
      case True
      have wf: "well_formed rest"
        using assms Cons True by (simp add: scalar_values_plain bom_not_surrogate)
      have "scalar_values s = 0xFEFF # scalar_values rest"
        using Cons True by (simp add: scalar_values_plain bom_not_surrogate)
      then show ?thesis
        unfolding dec using Cons True scalar_values_well_formed [OF wf] by simp
    next
      case False
      obtain v vs where v: "scalar_values s = v # vs" "v \<noteq> 0xFEFF"
        using first_scalar_value [of c rest] assms Cons False by auto
      have "concat (map utf16_units (v # vs)) = s"
        using scalar_values_well_formed [OF assms] v by simp
      then show ?thesis
        unfolding dec using Cons False v by simp
    qed
  qed
qed

lemma text_round_trip:
  "well_formed s \<Longrightarrow> \<not> starts_with_bom s \<Longrightarrow> TextDecoder_decode (TextEncoder_encode s) = s"
  by (cases s) (simp_all add: decode_encode_text starts_with_bom_def)


section \<open>Identifiers and passwords\<close>

lemma length_b64_body: "length (b64_body bs) = (length bs * 4 + 2) div 3"
  by (induction bs rule: b64_body.induct) (simp_all add: Let_def)

lemma to_url_alphabet: "x \<in> set base64_alphabet \<Longrightarrow> to_url x \<in> set base64url_alphabet"
  by (auto simp: base64_alphabet_def base64url_alphabet_def js_def to_url_def cu_def)

lemma base64url_body_alphabet: "set (map to_url (b64_body bs)) \<subseteq> set base64url_alphabet"
  using b64_body_alphabet [of bs] by (auto simp: to_url_alphabet)

lemma getRandomValues_ok:
  "n \<le> 65536 \<Longrightarrow> getRandomValues n r = Inr (map r [0..<n], \<lambda>i. r (i + n))"
  by (simp add: getRandomValues_def)

lemma generateId_eq:
  assumes "(len * 3 + 3) div 4 \<le> 65536"
  shows "generateId len r =
           Inr (take len (map to_url (b64_body (map r [0..<(len * 3 + 3) div 4]))),
                \<lambda>i. r (i + (len * 3 + 3) div 4))"
proof -
  let ?bs = "map r [0..<(len * 3 + 3) div 4]"
  have body: "filter (\<lambda>x. x \<noteq> pad_char) (map to_url (b64_body ?bs)) = map to_url (b64_body ?bs)"
    using b64_body_alphabet [of ?bs] by (auto simp: filter_id_conv alphabet_to_url_not_pad)
  have pad: "filter (\<lambda>x. x \<noteq> pad_char) (map to_url (b64_pad ?bs)) = []"
    using b64_pad_cases [of ?bs] by (auto simp: to_url_pad)
  show ?thesis
    unfolding generateId_def getRandomValues_ok [OF assms]
    by (simp add: btoa_bytes url_replace_encode base64_encode_decomp body pad del: map_map)
qed

lemma id_long_enough: "len \<le> (((len * 3 + 3) div 4) * 4 + 2) div (3::nat)"
  by linarith

lemma generateId_12: "generateId 12 r = Inr (take 12 (map to_url (b64_body (map r [0..<9]))), \<lambda>i. r (i + 9))"
  using generateId_eq [of 12 r] by simp

lemma generateId_12_length: "generateId 12 r = Inr (ident, r') \<Longrightarrow> length ident = 12"
  by (auto simp: generateId_12 length_b64_body)

lemma chars_nth_mem: "unat (b :: byte) mod length base64url_alphabet < length base64url_alphabet"
  by (simp add: base64url_alphabet_def js_def)

lemma upt9: "[0..<9] = [0,1,2,3,4,5,6,7,8::nat]"
  by (simp add: upt_rec)

lemma sample_bytes9: "map sample_rng [0..<9] = [250, 35, 76, 117, 158, 199, 240, 25, 66]"
  by (simp add: sample_rng_def upt9)

lemma sample_id_body: "b64_body [250, 35, 76, 117, 158, 199, 240, 25, 66] = map b64_char [62, 34, 13, 12, 29, 25, 59, 7, 60, 1, 37, 2]"
  by (simp add: Let_def)

lemma sample_id_url: "map to_url (map b64_char [62, 34, 13, 12, 29, 25, 59, 7, 60, 1, 37, 2]) = js ''-iNMdZ7H8BlC''"
  by (simp add: b64_char_def base64_alphabet_def js_def to_url_def cu_def)

lemma sample_id: "generateId 12 sample_rng = Inr (js ''-iNMdZ7H8BlC'', \<lambda>i. sample_rng (i + 9))"
proof -
  have "generateId 12 sample_rng
      = Inr (take 12 (map to_url (b64_body (map sample_rng [0..<9]))), \<lambda>i. sample_rng (i + 9))"
    by (rule generateId_12)
  then have "generateId 12 sample_rng
      = Inr (take 12 (js ''-iNMdZ7H8BlC''), \<lambda>i. sample_rng (i + 9))"
    by (simp only: sample_bytes9 sample_id_body sample_id_url)
  then show ?thesis by (simp add: js_def)
qed

lemma to_url_base64_alphabet: "map to_url base64_alphabet = base64url_alphabet"
  by (simp add: base64_alphabet_def base64url_alphabet_def js_def to_url_def cu_def)

lemma to_url_b64_char: "n < 64 \<Longrightarrow> to_url (b64_char n) = url_char n"
proof -
  assume n: "n < 64"
  then have "to_url (b64_char n) = map to_url base64_alphabet ! n"
    by (simp add: b64_char_def length_base64_alphabet)
  then show ?thesis by (simp add: to_url_base64_alphabet url_char_def)
qed

lemma base64url_body_rfc: "map to_url (b64_body bs) = rfc4648_base64url bs"
proof (induction bs rule: b64_body.induct)
  case (1 a b c rest)
  have "unat a * 65536 + unat b * 256 + unat c < 16777216"
    using triple_bound [of a b c] by simp
  then have "(unat a * 65536 + unat b * 256 + unat c) div 262144 < 64" by simp
  then show ?case using 1 by (simp add: Let_def to_url_b64_char)
next
  case (2 a b)
  have "unat a * 1024 + unat b * 4 < 262144" by (rule pair_bound)
  then have "(unat a * 1024 + unat b * 4) div 4096 < 64" by simp
  then show ?case by (simp add: Let_def to_url_b64_char)
next
  case (3 a)
  have "unat a * 16 < 4096" by (rule single_bound)
  then have "unat a * 16 div 64 < 64" by simp
  then show ?case by (simp add: Let_def to_url_b64_char)
next
  case 4
  then show ?case by simp
qed

lemma base64urlEncode_rfc: "base64urlEncode bs = Inr (rfc4648_base64url bs)"
  by (simp add: base64urlEncode_eq base64url_body_rfc)

lemma base64url_no_pad:
  "set s \<subseteq> set base64url_alphabet \<Longrightarrow>
   cu CHR ''='' \<notin> set s \<and> cu CHR ''+'' \<notin> set s \<and> cu CHR ''/'' \<notin> set s"
proof -
  have "cu CHR ''='' \<notin> set base64url_alphabet \<and> cu CHR ''+'' \<notin> set base64url_alphabet
        \<and> cu CHR ''/'' \<notin> set base64url_alphabet"
    by (simp add: base64url_alphabet_def js_def cu_def)
  then show "set s \<subseteq> set base64url_alphabet \<Longrightarrow>
   cu CHR ''='' \<notin> set s \<and> cu CHR ''+'' \<notin> set s \<and> cu CHR ''/'' \<notin> set s" by blast
qed

section \<open>Rounding to a double\<close>

lemma floor_rat_numeral:
  "\<lfloor>(numeral a :: rat) / numeral b\<rfloor> = numeral a div numeral b"
  "\<lfloor>- (numeral a :: rat) / numeral b\<rfloor> = - numeral a div numeral b"
  using floor_divide_of_int_eq [of "numeral a" "numeral b", where ?'a = rat]
    floor_divide_of_int_eq [of "- numeral a" "numeral b", where ?'a = rat]
  by simp_all

lemma round_half_even_int: "round_half_even (of_int m) = m"
  by (simp add: round_half_even_def)

lemma bitlen_pos: "0 < n \<Longrightarrow> 0 < bitlen n"
  by (subst bitlen.simps) simp

lemma bitlen_upper: "n < 2 ^ bitlen n"
proof (induction n rule: bitlen.induct)
  case (1 n)
  show ?case
  proof (cases "n = 0")
    case True
    then show ?thesis by simp
  next
    case False
    then have "n div 2 < 2 ^ bitlen (n div 2)" using 1 by simp
    then have "n < 2 * 2 ^ bitlen (n div 2)" by linarith
    moreover have "bitlen n = Suc (bitlen (n div 2))" using False by (subst bitlen.simps) simp
    ultimately show ?thesis by simp
  qed
qed

lemma bitlen_lower: "0 < n \<Longrightarrow> 2 ^ (bitlen n - 1) \<le> n"
proof (induction n rule: bitlen.induct)
  case (1 n)
  then have n: "n \<noteq> 0" by simp
  have b: "bitlen n = Suc (bitlen (n div 2))" using n by (subst bitlen.simps) simp
  show ?case
  proof (cases "n div 2 = 0")
    case True
    then have "bitlen (n div 2) = 0" by (subst bitlen.simps) simp
    then show ?thesis using b 1(2) by simp
  next
    case False
    then have "2 ^ (bitlen (n div 2) - 1) \<le> n div 2" using 1(1) n by simp
    moreover have "0 < bitlen (n div 2)" using False by (simp add: bitlen_pos)
    ultimately have "2 ^ bitlen (n div 2) \<le> 2 * (n div 2)"
      by (cases "bitlen (n div 2)") simp_all
    then show ?thesis using b by simp
  qed
qed

lemma bitlen_le: "n < 2 ^ k \<Longrightarrow> bitlen n \<le> k"
proof (rule ccontr)
  assume a: "n < 2 ^ k" "\<not> bitlen n \<le> k"
  then have "k \<le> bitlen n - 1" by simp
  then have "(2::nat) ^ k \<le> 2 ^ (bitlen n - 1)" by (rule power_increasing) simp
  moreover have "0 < n" using a(2) by (cases "n = 0") (simp_all add: bitlen.simps)
  ultimately have "2 ^ k \<le> n" using bitlen_lower [of n] by linarith
  then show False using a(1) by simp
qed

lemma binary64_int:
  assumes "\<bar>n\<bar> \<le> 2 ^ 53"
  shows "binary64 (of_int n) = Finite (of_int n)"
proof (cases "n = 0")
  case True
  then show ?thesis by (simp add: binary64_def)
next
  case False
  define L where "L = bitlen (nat \<bar>n\<bar>)"
  have pos: "0 < nat \<bar>n\<bar>" using False by simp
  have L1: "0 < L" unfolding L_def using pos by (rule bitlen_pos)
  have "nat \<bar>n\<bar> < 2 ^ 54" using assms by simp
  then have L54: "L \<le> 54" unfolding L_def by (rule bitlen_le)
  have one: "1 \<le> \<bar>rat_of_int n\<bar>" using False by (simp flip: of_int_abs)
  have fl: "\<lfloor>\<bar>rat_of_int n\<bar>\<rfloor> = \<bar>n\<bar>" by (simp flip: of_int_abs)
  have b: "binade (of_int n) = int L - 1"
    using one by (simp add: binade_def fl L_def)
  have e: "max (binade (rat_of_int n) - 52) (- 1074) = int L - 53"
    using b L1 by simp
  have small: "\<not> pow2 1024 \<le> \<bar>rat_of_int n\<bar>"
  proof -
    have "\<bar>rat_of_int n\<bar> \<le> 2 ^ 53" using assms by (simp flip: of_int_abs)
    moreover have "(2::rat) ^ 53 < 2 ^ 1024" by (rule power_strict_increasing) simp_all
    ultimately show ?thesis by (simp add: pow2_def)
  qed
  have y: "rat_of_int (round_half_even (rat_of_int n / pow2 (int L - 53))) * pow2 (int L - 53)
             = rat_of_int n"
  proof (cases "L \<le> 53")
    case True
    then have p: "pow2 (int L - 53) = 1 / 2 ^ (53 - L)"
      by (cases "L = 53") (simp_all add: pow2_def nat_diff_distrib')
    have q: "rat_of_int n / pow2 (int L - 53) = rat_of_int (n * 2 ^ (53 - L))"
      by (simp add: p)
    have "rat_of_int (round_half_even (rat_of_int n / pow2 (int L - 53))) * pow2 (int L - 53)
        = rat_of_int (n * 2 ^ (53 - L)) * (1 / 2 ^ (53 - L))"
      by (subst q) (simp only: round_half_even_int p)
    then show ?thesis by simp
  next
    case False
    then have l: "L = 54" using L54 by simp
    have "2 ^ 53 \<le> nat \<bar>n\<bar>" using bitlen_lower [OF pos] l by (simp add: L_def)
    then have "\<bar>n\<bar> = 2 ^ 53" using assms by simp
    then obtain m where m: "n = 2 * m" by (cases "0 \<le> n") (auto simp: abs_if intro: that [of "2 ^ 52"] that [of "- (2 ^ 52)"])
    have p: "pow2 (int L - 53) = 2" by (simp add: l pow2_def)
    have q: "rat_of_int n / pow2 (int L - 53) = rat_of_int m"
      by (simp add: p m)
    have "rat_of_int (round_half_even (rat_of_int n / pow2 (int L - 53))) * pow2 (int L - 53)
        = rat_of_int m * 2"
      by (subst q) (simp only: round_half_even_int p)
    then show ?thesis by (simp add: m)
  qed
  show ?thesis
    using False small by (simp add: binary64_def e y Let_def)
qed

lemma number_add_int:
  "\<bar>a + b\<bar> \<le> 2 ^ 53 \<Longrightarrow>
   number_add (Finite (of_int a)) (Finite (of_int b)) = Finite (of_int (a + b))"
  using binary64_int [of "a + b"] by simp

lemma binary64_large: "binary64 9007200954740991 = Finite 9007200954740992"
  by (simp add: binary64_def binade_def bitlen.simps pow2_def round_half_even_def Let_def
      floor_rat_numeral)

lemma binary64_tiny: "binary64 (1700000000 + 1 / 1099511627776) = Finite 1700000000"
  by (simp add: binary64_def binade_def bitlen.simps pow2_def round_half_even_def Let_def
      floor_rat_numeral)

lemma binary64_half: "binary64 (1700000000 + 1 / 2) = Finite (3400000001 / 2)"
  by (simp add: binary64_def binade_def bitlen.simps pow2_def round_half_even_def Let_def
      floor_rat_numeral)

section \<open>The operators on values\<close>

lemma to_boolean_iff:
  "to_boolean v \<longleftrightarrow>
     v \<notin> {None, Some JNull, Some (JBool False), Some (JNumber (Finite 0)), Some (JNumber NaN),
           Some (JString [])}"
  by (auto simp: to_boolean_def split: option.split js_value.split)

lemma member_null: "member JNull k = None"
  by (simp add: member_def)

lemma js_plus_number:
  "js_plus pf (JNumber a) (JNumber b) = Inr (JNumber (number_add a b))"
  by (simp add: js_plus_def to_primitive_def is_string_def to_number_def)

lemma js_plus_string:
  "js_plus pf (JNumber a) (JString s) = Inr (JString (number_to_string pf a @ s))"
  by (simp add: js_plus_def to_primitive_def is_string_def)

lemma js_plus_true:
  "js_plus pf (JNumber a) (JBool True) = Inr (JNumber (number_add a (Finite 1)))"
  by (simp add: js_plus_def to_primitive_def is_string_def to_number_def)

lemma less_than_number_number:
  "less_than_number pf (JNumber a) n = Inr (number_less a n)"
  by (simp add: less_than_number_def to_number_def)

lemma decimal_sample: "decimal 1700000000 = js ''1700000000''"
  by (simp add: decimal_def decimal_digits.simps digit_char_def js_def cu_def)

lemma number_to_string_sample:
  "number_to_string pf (Finite 1700000000) = js ''1700000000''"
proof -
  have "\<lfloor>1700000000 :: rat\<rfloor> = 1700000000" by simp
  then show ?thesis by (simp add: number_to_string_def decimal_sample)
qed

lemma kept_integer:
  "\<bar>n\<bar> \<le> 2 ^ 53 \<Longrightarrow> d1_store pf Integer_column (JNumber (Finite (of_int n))) = Inr (JNumber (Finite (of_int n)))"
proof -
  assume "\<bar>n\<bar> \<le> 2 ^ 53"
  then have "\<bar>rat_of_int n\<bar> \<le> 2 ^ 53" by (simp flip: of_int_abs)
  then show ?thesis by (simp add: d1_store_def kept_as_bound_def)
qed

lemma kept_text:
  "printable_ascii s \<Longrightarrow> length s \<le> 65536 \<Longrightarrow>
   d1_store pf Text_column (JString s) = Inr (JString s)"
  by (simp add: d1_store_def kept_as_bound_def)

section \<open>The handlers of the worker\<close>

lemma handle_fetch_stored:
  "db ident = Some found \<Longrightarrow> row_expires_at found = JNumber e \<Longrightarrow>
   handle_fetch pf date_now ident db =
     (if number_less e (Finite (of_int (date_now div 1000)))
      then (Response 410 (ErrorMessage (js ''Text has expired'')), db(ident := None))
      else (Response 200 (FetchData (row_id found) (row_cipher_text found) (row_iv found)
              (row_expires_at found)), db))"
  by (simp add: handle_fetch_def db_select_def db_delete_def less_than_number_number)

lemma handle_fetch_absent:
  "db ident = None \<Longrightarrow>
   handle_fetch pf date_now ident db = (Response 404 (ErrorMessage (js ''Text not found'')), db)"
  by (simp add: handle_fetch_def db_select_def)

lemma handle_submit_parse_failure:
  "handle_submit pf origin date_now (Inl e) db r
     = (Response 500 (ErrorMessage (js ''Failed to store data'')), db, r)"
  by (simp add: handle_submit_def)

lemma handle_submit_null:
  "handle_submit pf origin date_now (Inr JNull) db r
     = (Response 500 (ErrorMessage (js ''Failed to store data'')), db, r)"
  by (simp add: handle_submit_def)

lemma handle_submit_missing:
  assumes "body \<noteq> JNull"
    and "\<not> to_boolean (member body (js ''ttl'')) \<or> \<not> to_boolean (member body (js ''cipherText''))
         \<or> \<not> to_boolean (member body (js ''iv''))"
  shows "handle_submit pf origin date_now (Inr body) db r =
           (Response 400 (ErrorMessage (js ''Missing required parameters: ttl, cipherText, iv'')),
            db, r)"
  using assms by (simp add: handle_submit_def Let_def)

lemma handle_submit_valid:
  assumes "member body (js ''ttl'') = Some t" "to_boolean (Some t)"
    and "member body (js ''cipherText'') = Some c" "to_boolean (Some c)"
    and "member body (js ''iv'') = Some v" "to_boolean (Some v)"
    and "generateId 12 r = Inr (ident, r')"
  shows "handle_submit pf origin date_now (Inr body) db r =
           (case js_plus pf (JNumber (Finite (of_int (date_now div 1000)))) t of
              Inl e \<Rightarrow> (Response 500 (ErrorMessage (js ''Failed to store data'')), db, r')
            | Inr expiresAt \<Rightarrow>
                (case d1_insert pf db ident c v (JNumber (Finite (of_int (date_now div 1000))))
                        expiresAt of
                   Inl e \<Rightarrow> (Response 500 (ErrorMessage (js ''Failed to store data'')), db, r')
                 | Inr db' \<Rightarrow>
                     (Response 200 (SubmitData ident (origin @ js ''/'' @ ident) expiresAt),
                      db', r')))"
proof -
  have "body \<noteq> JNull" using assms(1) by (auto simp: member_null)
  then show ?thesis
    using assms by (simp add: handle_submit_def Let_def)
qed

lemma d1_insert_collision:
  "db ident = Some existing \<Longrightarrow> \<exists>e. d1_insert pf db ident c v n x = Inl e"
  by (simp add: d1_insert_def db_insert_def split: sum.split)

lemma handle_submit_collision:
  assumes "to_boolean (member body (js ''ttl''))" "to_boolean (member body (js ''cipherText''))"
    and "to_boolean (member body (js ''iv''))"
    and "generateId 12 r = Inr (ident, r')" and "db ident = Some existing"
  shows "handle_submit pf origin date_now (Inr body) db r
           = (Response 500 (ErrorMessage (js ''Failed to store data'')), db, r')"
proof -
  obtain t c v where m: "member body (js ''ttl'') = Some t"
      "member body (js ''cipherText'') = Some c" "member body (js ''iv'') = Some v"
    using assms(1-3) by (auto simp: to_boolean_iff)
  have tb: "to_boolean (Some t)" "to_boolean (Some c)" "to_boolean (Some v)"
    using assms(1-3) m by simp_all
  show ?thesis
  proof (cases "js_plus pf (JNumber (Finite (of_int (date_now div 1000)))) t")
    case (Inl e)
    then show ?thesis
      by (simp add: handle_submit_valid [OF m(1) tb(1) m(2) tb(2) m(3) tb(3) assms(4)])
  next
    case (Inr expiresAt)
    obtain e where "d1_insert pf db ident c v (JNumber (Finite (of_int (date_now div 1000))))
                      expiresAt = Inl e"
      using d1_insert_collision [where db = db and ident = ident, OF assms(5)] by blast
    then show ?thesis
      by (simp add: handle_submit_valid [OF m(1) tb(1) m(2) tb(2) m(3) tb(3) assms(4)] Inr)
  qed
qed

lemma d1_insert_created:
  assumes "d1_insert pf db ident c v n x = Inr db'"
  shows "db ident = None
       \<and> (\<exists>cv vv nv xv. d1_store pf Text_column c = Inr cv \<and> d1_store pf Text_column v = Inr vv
             \<and> d1_store pf Integer_column n = Inr nv \<and> d1_store pf Integer_column x = Inr xv
             \<and> db' = db(ident \<mapsto> \<lparr>row_id = ident, row_cipher_text = cv, row_iv = vv,
                                    row_created_at = nv, row_expires_at = xv\<rparr>))"
  using assms
  by (auto simp: d1_insert_def db_insert_def split: sum.splits option.splits)

lemma d1_insert_kept:
  assumes "db ident = None" "printable_ascii c" "length c \<le> 65536"
    and "printable_ascii v" "length v \<le> 65536"
    and "\<bar>n\<bar> \<le> 2 ^ 53" "\<bar>x\<bar> \<le> 2 ^ 53"
  shows "d1_insert pf db ident (JString c) (JString v) (JNumber (Finite (of_int n)))
           (JNumber (Finite (of_int x)))
         = Inr (db(ident \<mapsto> \<lparr>row_id = ident, row_cipher_text = JString c, row_iv = JString v,
                               row_created_at = JNumber (Finite (of_int n)),
                               row_expires_at = JNumber (Finite (of_int x))\<rparr>))"
  using assms by (simp add: d1_insert_def kept_text kept_integer db_insert_def)

lemma sample_body_simps:
  "member (sample_body t) (js ''ttl'') = Some t"
  "member (sample_body t) (js ''cipherText'') = Some (JString (js ''c1''))"
  "member (sample_body t) (js ''iv'') = Some (JString (js ''v1''))"
  "to_boolean (Some (JString (js ''c1'')))" "to_boolean (Some (JString (js ''v1'')))"
  "sample_body t \<noteq> JNull"
  "to_boolean (member (sample_body t) (js ''cipherText''))"
  "to_boolean (member (sample_body t) (js ''iv''))"
  by (simp_all add: sample_body_def member_def to_boolean_def js_def cu_def)

lemma sample_strings:
  "printable_ascii (js ''c1'')" "length (js ''c1'') \<le> 65536"
  "printable_ascii (js ''v1'')" "length (js ''v1'') \<le> 65536"
  by (simp_all add: js_def cu_def printable_ascii_def)

lemma sample_submit:
  assumes "t \<noteq> 0" "\<bar>1700000000 + t\<bar> \<le> 2 ^ 53"
  shows "handle_submit pf (js ''https://txtoo.example'') 1700000000000
           (Inr (sample_body (JNumber (Finite (of_int t))))) Map.empty sample_rng
   = (Response 200 (SubmitData (js ''-iNMdZ7H8BlC'') (js ''https://txtoo.example/-iNMdZ7H8BlC'')
         (JNumber (Finite (of_int (1700000000 + t))))),
      Map.empty(js ''-iNMdZ7H8BlC'' \<mapsto>
        \<lparr>row_id = js ''-iNMdZ7H8BlC'', row_cipher_text = JString (js ''c1''),
         row_iv = JString (js ''v1''), row_created_at = JNumber (Finite 1700000000),
         row_expires_at = JNumber (Finite (of_int (1700000000 + t)))\<rparr>),
      \<lambda>i. sample_rng (i + 9))"
proof -
  have tb: "to_boolean (Some (JNumber (Finite (of_int t))))"
    using assms(1) by (simp add: to_boolean_def)
  have plus: "js_plus pf (JNumber (Finite (of_int (1700000000000 div 1000))))
                (JNumber (Finite (of_int t)))
              = Inr (JNumber (Finite (of_int (1700000000 + t))))"
    using number_add_int [OF assms(2)] by (simp add: js_plus_number)
  have ins: "d1_insert pf Map.empty (js ''-iNMdZ7H8BlC'') (JString (js ''c1'')) (JString (js ''v1''))
               (JNumber (Finite (of_int 1700000000))) (JNumber (Finite (of_int (1700000000 + t))))
             = Inr (Map.empty(js ''-iNMdZ7H8BlC'' \<mapsto>
                 \<lparr>row_id = js ''-iNMdZ7H8BlC'', row_cipher_text = JString (js ''c1''),
                  row_iv = JString (js ''v1''),
                  row_created_at = JNumber (Finite (of_int 1700000000)),
                  row_expires_at = JNumber (Finite (of_int (1700000000 + t)))\<rparr>))"
    by (rule d1_insert_kept) (use assms(2) sample_strings in simp_all)
  have url: "js ''https://txtoo.example'' @ js ''/'' @ js ''-iNMdZ7H8BlC''
               = js ''https://txtoo.example/-iNMdZ7H8BlC''"
    by (simp add: js_def)
  show ?thesis
    unfolding handle_submit_valid [OF sample_body_simps(1) tb sample_body_simps(2,4,3,5) sample_id]
    using plus ins by (simp add: url)
qed

lemma colliding_bytes:
  "map colliding_rng [0..<9] = [0, 0, 0, 0, 0, 0, 0, 0, 0]"
  "map (\<lambda>i. colliding_rng (i + 9)) [0..<9] = [255, 255, 255, 255, 255, 255, 255, 255, 255]"
  by (simp_all add: colliding_rng_def upt9)

lemma colliding_id_body:
  "b64_body [0, 0, 0, 0, 0, 0, 0, 0, 0] = map b64_char [0, 0, 0, 0, 0, 0, 0, 0, 0, 0, 0, 0]"
  "b64_body [255, 255, 255, 255, 255, 255, 255, 255, 255]
     = map b64_char [63, 63, 63, 63, 63, 63, 63, 63, 63, 63, 63, 63]"
  by (simp_all add: Let_def)

lemma colliding_id_url:
  "map to_url (map b64_char [0, 0, 0, 0, 0, 0, 0, 0, 0, 0, 0, 0]) = js ''AAAAAAAAAAAA''"
  "map to_url (map b64_char [63, 63, 63, 63, 63, 63, 63, 63, 63, 63, 63, 63]) = js ''____________''"
  by (simp_all add: b64_char_def base64_alphabet_def js_def to_url_def cu_def)

lemma colliding_id: "generateId 12 colliding_rng = Inr (js ''AAAAAAAAAAAA'', \<lambda>i. colliding_rng (i + 9))"
proof -
  have "generateId 12 colliding_rng
      = Inr (take 12 (map to_url (b64_body (map colliding_rng [0..<9]))),
             \<lambda>i. colliding_rng (i + 9))"
    by (rule generateId_12)
  then have "generateId 12 colliding_rng
      = Inr (take 12 (js ''AAAAAAAAAAAA''), \<lambda>i. colliding_rng (i + 9))"
    by (simp only: colliding_bytes colliding_id_body colliding_id_url)
  then show ?thesis by (simp add: js_def)
qed

lemma next_id:
  "map_sum id fst (generateId 12 (\<lambda>i. colliding_rng (i + 9))) = Inr (js ''____________'')"
proof -
  have "generateId 12 (\<lambda>i. colliding_rng (i + 9))
      = Inr (take 12 (map to_url (b64_body (map (\<lambda>i. colliding_rng (i + 9)) [0..<9]))),
             \<lambda>i. colliding_rng (i + 9 + 9))"
    by (rule generateId_12)
  then have "generateId 12 (\<lambda>i. colliding_rng (i + 9))
      = Inr (take 12 (js ''____________''), \<lambda>i. colliding_rng (i + 9 + 9))"
    by (simp only: colliding_bytes colliding_id_body colliding_id_url)
  then show ?thesis by (simp add: js_def)
qed

lemma stored_db_simps:
  "stored_db (js ''AAAAAAAAAAAA'') = Some stored_row" "stored_db (js ''____________'') = None"
  by (simp_all add: stored_db_def js_def cu_def)

lemma stored_row_simps:
  "row_id stored_row = js ''AAAAAAAAAAAA''" "row_cipher_text stored_row = JString (js ''expireTest'')"
  "row_iv stored_row = JString (js ''expireIV'')"
  "row_created_at stored_row = JNumber (Finite 1700000000)"
  "row_expires_at stored_row = JNumber (Finite 1700000001)"
  by (simp_all add: stored_row_def)

lemma worker_fetch_submit:
  "req_method req = js ''POST'' \<Longrightarrow> req_path req = js ''/api/submit'' \<Longrightarrow>
   worker_fetch pf req date_now db r
     = handle_submit pf (req_origin req) date_now (req_json req) db r"
  by (simp add: worker_fetch_def js_def cu_def)

lemma worker_fetch_fetch:
  "req_method req = js ''GET'' \<Longrightarrow> req_path req = js ''/api/fetch/'' @ ident \<Longrightarrow>
   worker_fetch pf req date_now db r
     = (fst (handle_fetch pf date_now ident db), snd (handle_fetch pf date_now ident db), r)"
  by (simp add: worker_fetch_def starts_with_def js_def cu_def split: prod.split)

section \<open>The expression \<^verbatim>\<open>now + ttl\<close> at some values\<close>

text \<open>
  With \<open>now = 1700000000\<close>: the sum with \<open>2^53 - 1\<close> is rounded to an even number; a
  \<^verbatim>\<open>ttl\<close> of \<open>2^-40\<close> is absorbed; a half is kept; \<^verbatim>\<open>true\<close> counts as one; a string, an
  array and an object are concatenated to the digits of \<open>now\<close>; an object with a member
  \<^verbatim>\<open>toString\<close> throws.
\<close>

lemma expires_at_rounded:
  "js_plus pf (JNumber (Finite 1700000000)) (JNumber (Finite 9007199254740991))
     = Inr (JNumber (Finite 9007200954740992))"
  using binary64_large by (simp add: js_plus_number)

lemma expires_at_absorbed:
  "js_plus pf (JNumber (Finite 1700000000)) (JNumber (Finite (1 / 1099511627776)))
     = Inr (JNumber (Finite 1700000000))"
  using binary64_tiny by (simp add: js_plus_number)

lemma expires_at_half:
  "js_plus pf (JNumber (Finite 1700000000)) (JNumber (Finite (1 / 2)))
     = Inr (JNumber (Finite (3400000001 / 2)))"
  using binary64_half by (simp add: js_plus_number)

lemma expires_at_true:
  "js_plus pf (JNumber (Finite 1700000000)) (JBool True) = Inr (JNumber (Finite 1700000001))"
  using number_add_int [of 1700000000 1] by (simp add: js_plus_true)

lemma expires_at_string:
  "js_plus pf (JNumber (Finite 1700000000)) (JString (js ''3600''))
     = Inr (JString (js ''17000000003600''))"
  by (simp add: js_plus_string number_to_string_sample) (simp add: js_def)

lemma expires_at_array:
  "js_plus pf (JNumber (Finite 1700000000))
       (JArray [JNumber (Finite 1), JNull, JArray [JString (js ''x''), JBool False]])
     = Inr (JString (js ''17000000001,,x,false''))"
proof -
  have one: "number_to_string pf (Finite 1) = js ''1''"
    by (simp add: number_to_string_def decimal_def decimal_digits.simps digit_char_def js_def
        cu_def)
  show ?thesis
    by (simp add: js_plus_def to_primitive_def is_string_def number_to_string_sample one)
       (simp add: js_def)
qed

lemma expires_at_object:
  "js_plus pf (JNumber (Finite 1700000000)) (JObject [])
     = Inr (JString (js ''1700000000[object Object]''))"
  "js_plus pf (JNumber (Finite 1700000000)) (JObject [(js ''toString'', JNumber (Finite 1))])
     = Inl TypeError"
  by (simp_all add: js_plus_def to_primitive_def is_string_def number_to_string_sample)
     (simp add: js_def)

text \<open>
  A positive \<^verbatim>\<open>ttl\<close> of \<open>2^-40\<close> creates a record that expires in the second of its
  creation; a body that is a string, a number or an array has no \<^verbatim>\<open>ttl\<close> and is
  answered 400.
\<close>

lemma submit_tiny_ttl:
  "handle_submit pf (js ''https://txtoo.example'') 1700000000000
       (Inr (sample_body (JNumber (Finite (1 / 1099511627776))))) Map.empty sample_rng
   = (Response 200 (SubmitData (js ''-iNMdZ7H8BlC'') (js ''https://txtoo.example/-iNMdZ7H8BlC'')
         (JNumber (Finite 1700000000))),
      Map.empty(js ''-iNMdZ7H8BlC'' \<mapsto>
        \<lparr>row_id = js ''-iNMdZ7H8BlC'', row_cipher_text = JString (js ''c1''),
         row_iv = JString (js ''v1''), row_created_at = JNumber (Finite 1700000000),
         row_expires_at = JNumber (Finite 1700000000)\<rparr>),
      \<lambda>i. sample_rng (i + 9))"
proof -
  have tb: "to_boolean (Some (JNumber (Finite (1 / 1099511627776))))"
    by (simp add: to_boolean_def)
  have now: "JNumber (Finite (of_int (1700000000000 div 1000))) = JNumber (Finite 1700000000)"
    by simp
  have ins: "d1_insert pf Map.empty (js ''-iNMdZ7H8BlC'') (JString (js ''c1'')) (JString (js ''v1''))
               (JNumber (Finite (of_int 1700000000))) (JNumber (Finite (of_int 1700000000)))
             = Inr (Map.empty(js ''-iNMdZ7H8BlC'' \<mapsto>
                 \<lparr>row_id = js ''-iNMdZ7H8BlC'', row_cipher_text = JString (js ''c1''),
                  row_iv = JString (js ''v1''),
                  row_created_at = JNumber (Finite (of_int 1700000000)),
                  row_expires_at = JNumber (Finite (of_int 1700000000))\<rparr>))"
    by (rule d1_insert_kept) (use sample_strings in simp_all)
  have url: "js ''https://txtoo.example'' @ js ''/'' @ js ''-iNMdZ7H8BlC''
               = js ''https://txtoo.example/-iNMdZ7H8BlC''"
    by (simp add: js_def)
  show ?thesis
    unfolding handle_submit_valid [OF sample_body_simps(1) tb sample_body_simps(2,4,3,5) sample_id]
      now
    using ins by (simp add: expires_at_absorbed url)
qed

lemma submit_body_without_members:
  "handle_submit pf origin date_now (Inr (JString s)) db r
     = (Response 400 (ErrorMessage (js ''Missing required parameters: ttl, cipherText, iv'')),
        db, r)"
  "handle_submit pf origin date_now (Inr (JNumber n)) db r
     = (Response 400 (ErrorMessage (js ''Missing required parameters: ttl, cipherText, iv'')),
        db, r)"
  "handle_submit pf origin date_now (Inr (JArray xs)) db r
     = (Response 400 (ErrorMessage (js ''Missing required parameters: ttl, cipherText, iv'')),
        db, r)"
  by (simp_all add: handle_submit_missing member_def to_boolean_def)

section \<open>The envelope: what encryption writes and decryption reads\<close>

lemma unframe_frame: "unframe (frame k @ rest) = Some (k, rest)"
proof (induction k)
  case Nil
  then show ?case by (cases rest) simp_all
next
  case (Cons b k)
  then show ?case by simp
qed

lemma model_decrypt_encrypt:
  "aes_gcm_decrypt model_subtle key' iv' (aes_gcm_encrypt model_subtle key iv data)
     = (if key = key' \<and> iv = iv' then Some data else None)"
  by (auto simp: model_subtle_def model_tag_def unframe_frame)

lemma model_aead_correct: "aead_correct model_subtle"
  by (simp add: aead_correct_def model_decrypt_encrypt)

lemma model_aead_rejects_short: "aead_rejects_short model_subtle"
  by (simp add: aead_rejects_short_def model_subtle_def)

lemma base64urlDecode_encode: "base64urlEncode bs = Inr s \<Longrightarrow> base64urlDecode s = Inr bs"
  by (auto simp: base64urlEncode_eq base64urlDecode_encoded)

lemma encryptText_eq:
  "encryptText subtle r text password =
     Inr (\<lparr>env_cipherText =
             map to_url (b64_body (map r [0..<16]
               @ aes_gcm_encrypt subtle (deriveKey subtle password (map r [0..<16]))
                   (map (\<lambda>i. r (i + 16)) [0..<12]) (TextEncoder_encode text))),
           env_iv = map to_url (b64_body (map (\<lambda>i. r (i + 16)) [0..<12]))\<rparr>,
          \<lambda>i. r (i + 12 + 16))"
  by (simp add: encryptText_def getRandomValues_def base64urlEncode_eq Let_def
      del: upt_Suc map_map map_append)

lemma decryptText_encoded:
  "length salt = 16 \<Longrightarrow>
   decryptText subtle (map to_url (b64_body (salt @ ct))) (map to_url (b64_body iv)) password
     = (case aes_gcm_decrypt subtle (deriveKey subtle password salt) iv ct of
          None \<Rightarrow> Inl OperationError
        | Some decryptedData \<Rightarrow> Inr (TextDecoder_decode decryptedData))"
  by (simp add: decryptText_def base64urlDecode_encoded Let_def del: map_map)

lemma round_trip_eq:
  "round_trip subtle r text password1 password2 =
     (case aes_gcm_decrypt subtle (deriveKey subtle password2 (map r [0..<16]))
             (map (\<lambda>i. r (i + 16)) [0..<12])
             (aes_gcm_encrypt subtle (deriveKey subtle password1 (map r [0..<16]))
                (map (\<lambda>i. r (i + 16)) [0..<12]) (TextEncoder_encode text)) of
        None \<Rightarrow> Inl OperationError
      | Some decryptedData \<Rightarrow> Inr (TextDecoder_decode decryptedData))"
  unfolding round_trip_def encryptText_eq
  by (simp add: decryptText_encoded del: upt_Suc map_map map_append)

section \<open>Concrete envelopes\<close>

lemma ascii_well_formed:
  "well_formed (js ''hello'')" "\<not> starts_with_bom (js ''hello'')"
  "well_formed (js ''hi'')" "\<not> starts_with_bom (js ''hi'')"
  "well_formed (0xFEFF # js ''hi'')"
  by (simp_all add: js_def cu_def is_lead_surrogate_def is_trail_surrogate_def starts_with_bom_def)


lemma decode_bang: "base64urlDecode (js ''!!!!'') = Inl InvalidCharacterError"
proof -
  have 1: "replace_all (cu CHR ''_'') (js ''/'') (replace_all (cu CHR ''-'') (js ''+'') (js ''!!!!''))
             = js ''!!!!''"
    unfolding url_replace_decode by (simp add: from_url_def js_def cu_def)
  have 2: "pad_loop (js ''!!!!'') = js ''!!!!''"
    by (simp add: pad_loop_aligned js_def)
  have 3: "atob (js ''!!!!'') = Inl InvalidCharacterError"
    by (simp add: atob_def Let_def js_def cu_def is_ascii_whitespace_def strip_padding_def
        pad_char_def base64_alphabet_def)
  show ?thesis by (simp only: base64urlDecode_def 1 2 3 Let_def sum.case)
qed

lemma decode_empty: "base64urlDecode (js '''') = Inr []"
  using base64urlDecode_encoded [of "[]"] by (simp add: js_def)

lemma short_iv_field: "map to_url (b64_body [1, 2, 3]) = js ''AQID''"
  by (simp add: Let_def b64_char_def base64_alphabet_def js_def to_url_def cu_def)

lemma decode_short_iv: "base64urlDecode (js ''AQID'') = Inr [1, 2, 3]"
  using base64urlDecode_encoded [of "[1, 2, 3]"] by (simp only: short_iv_field)

lemma hi_bytes: "TextEncoder_encode (js ''hi'') = [104, 105]"
  "TextEncoder_encode (js ''pw'') = [112, 119]"
  by (simp_all add: TextEncoder_encode_def js_def cu_def is_lead_surrogate_def
      is_trail_surrogate_def utf8_encode_scalar_def)

lemma replicate16: "replicate 16 x = [x, x, x, x, x, x, x, x, x, x, x, x, x, x, x, x]"
  by (simp add: numeral_eq_Suc)

lemma short_iv_combined:
  "replicate 16 0
   @ aes_gcm_encrypt model_subtle (deriveKey model_subtle (js ''pw'') (replicate 16 0)) [1, 2, 3]
       (TextEncoder_encode (js ''hi''))
   = [0, 0, 0, 0, 0, 0, 0, 0, 0, 0, 0, 0, 0, 0, 0, 0, 170, 170, 170, 170, 170,
      170, 170, 170, 170, 170, 170, 170, 170, 170, 170, 170, 1, 112, 1, 119, 1,
      0, 1, 0, 1, 0, 1, 0, 1, 0, 1, 0, 1, 0, 1, 0, 1, 0, 1, 0, 1, 0, 1, 0, 1, 0,
      1, 0, 1, 0, 1, 0, 0, 1, 1, 1, 2, 1, 3, 0, 104, 105]"
  by (simp add: hi_bytes deriveKey_def model_subtle_def model_tag_def replicate16)

lemma short_iv_body:
  "b64_body [0, 0, 0, 0, 0, 0, 0, 0, 0, 0, 0, 0, 0, 0, 0, 0, 170, 170, 170, 170, 170,
      170, 170, 170, 170, 170, 170, 170, 170, 170, 170, 170, 1, 112, 1, 119, 1,
      0, 1, 0, 1, 0, 1, 0, 1, 0, 1, 0, 1, 0, 1, 0, 1, 0, 1, 0, 1, 0, 1, 0, 1, 0,
      1, 0, 1, 0, 1, 0, 0, 1, 1, 1, 2, 1, 3, 0, 104, 105]
   = map b64_char [0, 0, 0, 0, 0, 0, 0, 0, 0, 0, 0, 0, 0, 0, 0, 0, 0, 0, 0, 0, 0, 10, 42, 42,
       42, 42, 42, 42, 42, 42, 42, 42, 42, 42, 42, 42, 42, 42, 42, 42, 42, 42, 40, 1, 28, 0,
       5, 55, 0, 16, 0, 1, 0, 0, 4, 0, 0, 16, 0, 1, 0, 0, 4, 0, 0, 16, 0, 1, 0, 0, 4, 0, 0,
       16, 0, 1, 0, 0, 4, 0, 0, 16, 0, 1, 0, 0, 4, 0, 0, 16, 0, 0, 0, 16, 4, 1, 0, 32, 4, 3,
       0, 6, 33, 41]"
  by (simp add: Let_def)

lemma short_iv_url:
  "map to_url (map b64_char [0, 0, 0, 0, 0, 0, 0, 0, 0, 0, 0, 0, 0, 0, 0, 0, 0, 0, 0, 0, 0, 10, 42, 42,
       42, 42, 42, 42, 42, 42, 42, 42, 42, 42, 42, 42, 42, 42, 42, 42, 42, 42, 40, 1, 28, 0,
       5, 55, 0, 16, 0, 1, 0, 0, 4, 0, 0, 16, 0, 1, 0, 0, 4, 0, 0, 16, 0, 1, 0, 0, 4, 0, 0,
       16, 0, 1, 0, 0, 4, 0, 0, 16, 0, 1, 0, 0, 4, 0, 0, 16, 0, 0, 0, 16, 4, 1, 0, 32, 4, 3,
       0, 6, 33, 41])
   = js ''AAAAAAAAAAAAAAAAAAAAAKqqqqqqqqqqqqqqqqqqqqoBcAF3AQABAAEAAQABAAEAAQABAAEAAQABAAEAAQABAAEAAQAAAQEBAgEDAGhp''"
  by (simp add: b64_char_def base64_alphabet_def js_def to_url_def cu_def)

lemma short_iv_cipherText:
  "map to_url (b64_body (replicate 16 0
     @ aes_gcm_encrypt model_subtle (deriveKey model_subtle (js ''pw'') (replicate 16 0)) [1, 2, 3]
         (TextEncoder_encode (js ''hi''))))
   = js ''AAAAAAAAAAAAAAAAAAAAAKqqqqqqqqqqqqqqqqqqqqoBcAF3AQABAAEAAQABAAEAAQABAAEAAQABAAEAAQABAAEAAQAAAQEBAgEDAGhp''"
  by (simp only: short_iv_combined short_iv_body short_iv_url)

chapter \<open>The claims\<close>

text \<open>
  Claim C1, as amended. On a platform whose authenticated decryption returns what was
  encrypted under the same key and nonce, for every plaintext \<open>P\<close> that is a well-formed
  string and does not begin with \<open>U+FEFF\<close> and for every password \<open>W\<close>, encryption
  returns an envelope and decrypting that envelope with \<open>W\<close> returns \<open>P\<close>.
\<close>

theorem envelope_round_trip:
  assumes "aead_correct subtle" "well_formed P" "\<not> starts_with_bom P"
  shows "\<exists>env r'. encryptText subtle r P W = Inr (env, r')
           \<and> decryptText subtle (env_cipherText env) (env_iv env) W = Inr P"
proof -
  have "decryptText subtle
          (map to_url (b64_body (map r [0..<16]
             @ aes_gcm_encrypt subtle (deriveKey subtle W (map r [0..<16]))
                 (map (\<lambda>i. r (i + 16)) [0..<12]) (TextEncoder_encode P))))
          (map to_url (b64_body (map (\<lambda>i. r (i + 16)) [0..<12]))) W
        = Inr P"
    using assms
    by (simp add: decryptText_encoded aead_correct_def text_round_trip del: upt_Suc map_map)
  then show ?thesis unfolding encryptText_eq by simp
qed

theorem envelope_round_trip_witness:
  "aead_correct model_subtle \<and> well_formed (js ''hello'') \<and> \<not> starts_with_bom (js ''hello'')
   \<and> (\<exists>env r'. encryptText model_subtle sample_rng (js ''hello'') (js ''pw'') = Inr (env, r')
          \<and> decryptText model_subtle (env_cipherText env) (env_iv env) (js ''pw'')
              = Inr (js ''hello''))"
  using envelope_round_trip [OF model_aead_correct ascii_well_formed(1,2), of sample_rng "js ''pw''"]
  by (simp add: model_aead_correct ascii_well_formed)

text \<open>
  Claim C1 as stated fails for a plaintext that begins with \<open>U+FEFF\<close>: the decoder of
  \<^verbatim>\<open>new TextDecoder()\<close> leaves a byte order mark out, and decryption returns the
  plaintext without its first character.
\<close>

theorem envelope_round_trip_bom_counterexample:
  "round_trip model_subtle sample_rng (0xFEFF # js ''hi'') (js ''pw'') (js ''pw'') = Inr (js ''hi'')
   \<and> js ''hi'' \<noteq> 0xFEFF # js ''hi''"
  by (simp add: round_trip_eq model_decrypt_encrypt decode_encode_text ascii_well_formed
      del: upt_Suc)

text \<open>
  Claim C2, on the code. A record whose \<^verbatim>\<open>expires_at\<close> is 1700000001 is fetched when
  \<^verbatim>\<open>Date.now()\<close> is 1700000001000, the very second of its expiry: the handler compares
  with \<open><\<close>, answers 200 with the record and leaves it in the table, where the claim has
  the record dead once the time has reached \<^verbatim>\<open>expires_at\<close>.
\<close>

theorem fetch_at_expiry_instant:
  "handle_fetch pf 1700000001000 (js ''AAAAAAAAAAAA'') stored_db
     = (Response 200 (FetchData (js ''AAAAAAAAAAAA'') (JString (js ''expireTest''))
          (JString (js ''expireIV'')) (JNumber (Finite 1700000001))), stored_db)
   \<and> row_expires_at stored_row = JNumber (Finite (of_int (1700000001000 div 1000)))"
  using handle_fetch_stored [where db = stored_db and ident = "js ''AAAAAAAAAAAA''"
      and found = stored_row and e = "Finite 1700000001" and pf = pf
      and date_now = 1700000001000]
  by (simp add: stored_db_simps stored_row_simps)

text \<open>
  Claim C3, as amended. When a field does not base64url-decode, \<^verbatim>\<open>decryptText\<close> fails
  with the decoder's error, whatever the platform and the password: no key is derived.
  The decoded lengths are not checked: when both fields decode, the key is derived from
  the first 16 bytes (or fewer) and the outcome is that of AES-GCM on the decoded nonce
  and the remaining bytes; where AES-GCM rejects what is shorter than its tag, a decoded
  \<^verbatim>\<open>cipherText\<close> of fewer than 32 bytes fails there, with \<^verbatim>\<open>OperationError\<close>.
\<close>

theorem decryptText_malformed:
  "(base64urlDecode cipherText = Inl e \<longrightarrow>
      decryptText subtle cipherText ivString password = Inl e)
   \<and> (base64urlDecode cipherText = Inr c \<and> base64urlDecode ivString = Inl e \<longrightarrow>
        decryptText subtle cipherText ivString password = Inl e)
   \<and> (base64urlDecode cipherText = Inr c \<and> base64urlDecode ivString = Inr iv \<longrightarrow>
        decryptText subtle cipherText ivString password
          = (case aes_gcm_decrypt subtle (deriveKey subtle password (take 16 c)) iv (drop 16 c) of
               None \<Rightarrow> Inl OperationError
             | Some decryptedData \<Rightarrow> Inr (TextDecoder_decode decryptedData)))
   \<and> (base64urlDecode cipherText = Inr c \<and> base64urlDecode ivString = Inr iv
        \<and> aead_rejects_short subtle \<and> length c < 32 \<longrightarrow>
        decryptText subtle cipherText ivString password = Inl OperationError)"
  by (auto simp: decryptText_def Let_def aead_rejects_short_def)

theorem decryptText_malformed_witness:
  "base64urlDecode (js ''!!!!'') = Inl InvalidCharacterError
   \<and> decryptText model_subtle (js ''!!!!'') (js ''AQID'') (js ''pw'') = Inl InvalidCharacterError
   \<and> base64urlDecode (js '''') = Inr []
   \<and> decryptText model_subtle (js '''') (js ''!!!!'') (js ''pw'') = Inl InvalidCharacterError
   \<and> base64urlDecode (js ''AQID'') = Inr [1, 2, 3]
   \<and> aead_rejects_short model_subtle
   \<and> decryptText model_subtle (js '''') (js ''AQID'') (js ''pw'') = Inl OperationError"
proof -
  have 1: "decryptText model_subtle (js ''!!!!'') (js ''AQID'') (js ''pw'') = Inl InvalidCharacterError"
    using decryptText_malformed [of "js ''!!!!''" InvalidCharacterError model_subtle "js ''AQID''"
        "js ''pw''"] decode_bang
    by simp
  have 2: "decryptText model_subtle (js '''') (js ''!!!!'') (js ''pw'') = Inl InvalidCharacterError"
    using decryptText_malformed [of "js ''''" InvalidCharacterError model_subtle "js ''!!!!''"
        "js ''pw''" "[]"] decode_bang decode_empty
    by simp
  have 3: "decryptText model_subtle (js '''') (js ''AQID'') (js ''pw'') = Inl OperationError"
    using decryptText_malformed [of "js ''''" _ model_subtle "js ''AQID''" "js ''pw''" "[]"
        "[1, 2, 3]"] decode_empty decode_short_iv model_aead_rejects_short
    by auto
  show ?thesis
    using 1 2 3 decode_bang decode_empty decode_short_iv model_aead_rejects_short by simp
qed

text \<open>
  Claim C3 as stated fails: here the \<^verbatim>\<open>iv\<close> field decodes to three bytes, and
  \<^verbatim>\<open>decryptText\<close> derives the key, decrypts and returns the plaintext.
\<close>

theorem decryptText_short_iv_counterexample:
  "base64urlDecode (js ''AQID'') = Inr [1, 2, 3]
   \<and> decryptText model_subtle
        (js ''AAAAAAAAAAAAAAAAAAAAAKqqqqqqqqqqqqqqqqqqqqoBcAF3AQABAAEAAQABAAEAAQABAAEAAQABAAEAAQABAAEAAQAAAQEBAgEDAGhp'')
        (js ''AQID'') (js ''pw'')
       = Inr (js ''hi'')"
proof -
  have "decryptText model_subtle
          (map to_url (b64_body (replicate 16 0
             @ aes_gcm_encrypt model_subtle (deriveKey model_subtle (js ''pw'') (replicate 16 0))
                 [1, 2, 3] (TextEncoder_encode (js ''hi'')))))
          (map to_url (b64_body [1, 2, 3])) (js ''pw'')
        = (case aes_gcm_decrypt model_subtle (deriveKey model_subtle (js ''pw'') (replicate 16 0))
                  [1, 2, 3]
                  (aes_gcm_encrypt model_subtle
                     (deriveKey model_subtle (js ''pw'') (replicate 16 0))
                     [1, 2, 3] (TextEncoder_encode (js ''hi''))) of
             None \<Rightarrow> Inl OperationError
           | Some decryptedData \<Rightarrow> Inr (TextDecoder_decode decryptedData))"
    by (rule decryptText_encoded) simp
  also have "\<dots> = Inr (js ''hi'')"
    by (simp add: model_decrypt_encrypt text_round_trip ascii_well_formed del: replicate_Suc)
  finally have "decryptText model_subtle
          (map to_url (b64_body (replicate 16 0
             @ aes_gcm_encrypt model_subtle (deriveKey model_subtle (js ''pw'') (replicate 16 0))
                 [1, 2, 3] (TextEncoder_encode (js ''hi'')))))
          (map to_url (b64_body [1, 2, 3])) (js ''pw'')
        = Inr (js ''hi'')" .
  then show ?thesis by (simp only: short_iv_cipherText short_iv_field decode_short_iv simp_thms)
qed

text \<open>
  Claim C4, as amended. The only validation of \<^verbatim>\<open>ttl\<close> is a check that it is there.
  A submit request whose body is not JSON or is \<^verbatim>\<open>null\<close> is answered 500, and one whose
  \<^verbatim>\<open>ttl\<close> is absent, \<^verbatim>\<open>null\<close>, \<^verbatim>\<open>false\<close>, zero or the empty string is answered 400; in
  both cases no record is created. Neither the sign nor the type of \<^verbatim>\<open>ttl\<close> is checked.
  Every record a submit creates comes from a \<^verbatim>\<open>ttl\<close> that is none of these values; its
  \<^verbatim>\<open>created_at\<close> is what D1 stores for \<open>now\<close>, the second of \<^verbatim>\<open>Date.now()\<close>, and its
  \<^verbatim>\<open>expires_at\<close> what D1 stores for the value of the expression \<^verbatim>\<open>now + ttl\<close>, which is
  also the \<^verbatim>\<open>expiresAt\<close> of the answer: the sum in double precision when \<^verbatim>\<open>ttl\<close> is a
  number, the concatenation of the digits of \<open>now\<close> with \<^verbatim>\<open>ttl\<close> when it is a string. When
  \<^verbatim>\<open>ttl\<close> is an integer \<open>t\<close> and \<open>now\<close> and \<open>now + t\<close> are of magnitude at most \<open>2^53\<close>,
  then \<open>t\<close> is not zero, \<open>created_at = now\<close> and \<open>expires_at = now + t\<close> exactly, so that
  \<^verbatim>\<open>created_at < expires_at\<close> holds exactly when \<open>t\<close> is positive.
\<close>

theorem submit_ttl_validation:
  "handle_submit pf origin date_now (Inl e) db r
     = (Response 500 (ErrorMessage (js ''Failed to store data'')), db, r)
   \<and> handle_submit pf origin date_now (Inr JNull) db r
     = (Response 500 (ErrorMessage (js ''Failed to store data'')), db, r)
   \<and> (body \<noteq> JNull
        \<and> member body (js ''ttl'')
            \<in> {None, Some JNull, Some (JBool False), Some (JNumber (Finite 0)),
                Some (JNumber NaN), Some (JString [])} \<longrightarrow>
      handle_submit pf origin date_now (Inr body) db r
        = (Response 400 (ErrorMessage (js ''Missing required parameters: ttl, cipherText, iv'')),
           db, r))
   \<and> (\<forall>ident created.
        fst (snd (handle_submit pf origin date_now (Inr body) db r)) ident = Some created
        \<and> db ident \<noteq> Some created \<longrightarrow>
        (\<exists>ttl expiresAt.
            member body (js ''ttl'') = Some ttl
          \<and> ttl \<notin> {JNull, JBool False, JNumber (Finite 0), JNumber NaN, JString []}
          \<and> js_plus pf (JNumber (Finite (of_int (date_now div 1000)))) ttl = Inr expiresAt
          \<and> (\<forall>n. ttl = JNumber n \<longrightarrow>
                expiresAt = JNumber (number_add (Finite (of_int (date_now div 1000))) n))
          \<and> (\<forall>s. ttl = JString s \<longrightarrow>
                expiresAt
                  = JString (number_to_string pf (Finite (of_int (date_now div 1000))) @ s))
          \<and> fst (handle_submit pf origin date_now (Inr body) db r)
              = Response 200 (SubmitData ident (origin @ js ''/'' @ ident) expiresAt)
          \<and> d1_store pf Integer_column (JNumber (Finite (of_int (date_now div 1000))))
              = Inr (row_created_at created)
          \<and> d1_store pf Integer_column expiresAt = Inr (row_expires_at created)
          \<and> (\<forall>t. ttl = JNumber (Finite (of_int t)) \<and> \<bar>date_now div 1000\<bar> \<le> 2 ^ 53
                  \<and> \<bar>date_now div 1000 + t\<bar> \<le> 2 ^ 53 \<longrightarrow>
                t \<noteq> 0
              \<and> row_created_at created = JNumber (Finite (of_int (date_now div 1000)))
              \<and> row_expires_at created = JNumber (Finite (of_int (date_now div 1000 + t)))
              \<and> less_than_number pf (row_created_at created)
                    (Finite (of_int (date_now div 1000 + t)))
                  = Inr (0 < t))))"
proof (intro conjI impI allI)
  show "handle_submit pf origin date_now (Inl e) db r
     = (Response 500 (ErrorMessage (js ''Failed to store data'')), db, r)"
    by (rule handle_submit_parse_failure)
next
  show "handle_submit pf origin date_now (Inr JNull) db r
     = (Response 500 (ErrorMessage (js ''Failed to store data'')), db, r)"
    by (rule handle_submit_null)
next
  assume a: "body \<noteq> JNull
        \<and> member body (js ''ttl'')
            \<in> {None, Some JNull, Some (JBool False), Some (JNumber (Finite 0)),
                Some (JNumber NaN), Some (JString [])}"
  then have "\<not> to_boolean (member body (js ''ttl''))" by (simp only: to_boolean_iff) simp
  then show "handle_submit pf origin date_now (Inr body) db r
        = (Response 400 (ErrorMessage (js ''Missing required parameters: ttl, cipherText, iv'')),
           db, r)"
    using a by (simp add: handle_submit_missing)
next
  fix ident and created :: row
  let ?now = "JNumber (Finite (of_int (date_now div 1000)))"
  let ?goal = "\<exists>ttl expiresAt.
            member body (js ''ttl'') = Some ttl
          \<and> ttl \<notin> {JNull, JBool False, JNumber (Finite 0), JNumber NaN, JString []}
          \<and> js_plus pf ?now ttl = Inr expiresAt
          \<and> (\<forall>n. ttl = JNumber n \<longrightarrow>
                expiresAt = JNumber (number_add (Finite (of_int (date_now div 1000))) n))
          \<and> (\<forall>s. ttl = JString s \<longrightarrow>
                expiresAt
                  = JString (number_to_string pf (Finite (of_int (date_now div 1000))) @ s))
          \<and> fst (handle_submit pf origin date_now (Inr body) db r)
              = Response 200 (SubmitData ident (origin @ js ''/'' @ ident) expiresAt)
          \<and> d1_store pf Integer_column ?now = Inr (row_created_at created)
          \<and> d1_store pf Integer_column expiresAt = Inr (row_expires_at created)
          \<and> (\<forall>t. ttl = JNumber (Finite (of_int t)) \<and> \<bar>date_now div 1000\<bar> \<le> 2 ^ 53
                  \<and> \<bar>date_now div 1000 + t\<bar> \<le> 2 ^ 53 \<longrightarrow>
                t \<noteq> 0
              \<and> row_created_at created = JNumber (Finite (of_int (date_now div 1000)))
              \<and> row_expires_at created = JNumber (Finite (of_int (date_now div 1000 + t)))
              \<and> less_than_number pf (row_created_at created)
                    (Finite (of_int (date_now div 1000 + t)))
                  = Inr (0 < t))"
  assume a: "fst (snd (handle_submit pf origin date_now (Inr body) db r)) ident = Some created
        \<and> db ident \<noteq> Some created"
  have nn: "body \<noteq> JNull" using a by (auto simp: handle_submit_null)
  have tr: "to_boolean (member body (js ''ttl'')) \<and> to_boolean (member body (js ''cipherText''))
            \<and> to_boolean (member body (js ''iv''))"
  proof (rule ccontr)
    assume "\<not> ?thesis"
    then have "\<not> to_boolean (member body (js ''ttl''))
        \<or> \<not> to_boolean (member body (js ''cipherText''))
        \<or> \<not> to_boolean (member body (js ''iv''))" by blast
    from handle_submit_missing [OF nn this, of pf origin date_now db r] a
    show False by simp
  qed
  then obtain ttl c v where m: "member body (js ''ttl'') = Some ttl"
      "member body (js ''cipherText'') = Some c" "member body (js ''iv'') = Some v"
    by (auto simp: to_boolean_iff)
  have tb: "to_boolean (Some ttl)" "to_boolean (Some c)" "to_boolean (Some v)"
    using tr m by simp_all
  obtain i r' where g: "generateId 12 r = Inr (i, r')" by (simp add: generateId_12)
  note hs = handle_submit_valid [OF m(1) tb(1) m(2) tb(2) m(3) tb(3) g,
      of pf origin date_now db]
  obtain expiresAt where p: "js_plus pf ?now ttl = Inr expiresAt"
    using a by (cases "js_plus pf ?now ttl") (auto simp: hs)
  obtain db' where ins: "d1_insert pf db i c v ?now expiresAt = Inr db'"
    using a by (cases "d1_insert pf db i c v ?now expiresAt") (auto simp: hs p)
  have res: "handle_submit pf origin date_now (Inr body) db r
      = (Response 200 (SubmitData i (origin @ js ''/'' @ i) expiresAt), db', r')"
    by (simp add: hs p ins)
  obtain cv vv nv xv where st: "d1_store pf Integer_column ?now = Inr nv"
      "d1_store pf Integer_column expiresAt = Inr xv"
      and db': "db' = db(i \<mapsto> \<lparr>row_id = i, row_cipher_text = cv, row_iv = vv,
                                  row_created_at = nv, row_expires_at = xv\<rparr>)"
    using d1_insert_created [OF ins] by blast
  have id: "ident = i" using a unfolding res db' by (cases "ident = i") auto
  have cr: "created = \<lparr>row_id = i, row_cipher_text = cv, row_iv = vv,
                        row_created_at = nv, row_expires_at = xv\<rparr>"
    using a unfolding res db' id by simp
  have nf: "ttl \<notin> {JNull, JBool False, JNumber (Finite 0), JNumber NaN, JString []}"
    using tb(1) by (simp only: to_boolean_iff) auto
  have num: "expiresAt = JNumber (number_add (Finite (of_int (date_now div 1000))) n)"
    if "ttl = JNumber n" for n
    using p that by (simp add: js_plus_number)
  have str: "expiresAt = JString (number_to_string pf (Finite (of_int (date_now div 1000))) @ s)"
    if "ttl = JString s" for s
    using p that by (simp add: js_plus_string)
  have int: "t \<noteq> 0
        \<and> row_created_at created = JNumber (Finite (of_int (date_now div 1000)))
        \<and> row_expires_at created = JNumber (Finite (of_int (date_now div 1000 + t)))
        \<and> less_than_number pf (row_created_at created)
              (Finite (of_int (date_now div 1000 + t))) = Inr (0 < t)"
    if h: "ttl = JNumber (Finite (of_int t)) \<and> \<bar>date_now div 1000\<bar> \<le> 2 ^ 53
         \<and> \<bar>date_now div 1000 + t\<bar> \<le> 2 ^ 53" for t
  proof -
    have t0: "t \<noteq> 0" using nf h by auto
    have e: "expiresAt = JNumber (Finite (of_int (date_now div 1000 + t)))"
      using num [of "Finite (of_int t)"] h number_add_int [of "date_now div 1000" t] by simp
    have c1: "nv = JNumber (Finite (of_int (date_now div 1000)))"
      using st(1) h kept_integer [of "date_now div 1000" pf] by simp
    have c2: "xv = JNumber (Finite (of_int (date_now div 1000 + t)))"
      using st(2) h kept_integer [of "date_now div 1000 + t" pf] unfolding e by simp
    show ?thesis
      using t0 by (simp add: cr c1 c2 less_than_number_number)
  qed
  have f1: "fst (handle_submit pf origin date_now (Inr body) db r)
              = Response 200 (SubmitData ident (origin @ js ''/'' @ ident) expiresAt)"
    by (simp add: res id)
  have f2: "d1_store pf Integer_column ?now = Inr (row_created_at created)"
    by (simp add: st cr)
  have f3: "d1_store pf Integer_column expiresAt = Inr (row_expires_at created)"
    by (simp add: st cr)
  show ?goal
    apply (rule exI [where x = ttl])
    apply (rule exI [where x = expiresAt])
    apply (intro conjI allI impI)
    using m(1) nf p num str f1 f2 f3 int apply blast+
    done
qed

theorem submit_ttl_validation_witness:
  "\<forall>pf.
     sample_body (JNumber (Finite 0)) \<noteq> JNull
   \<and> member (sample_body (JNumber (Finite 0))) (js ''ttl'') = Some (JNumber (Finite 0))
   \<and> handle_submit pf (js ''https://txtoo.example'') 1700000000000
        (Inr (sample_body (JNumber (Finite 0)))) Map.empty sample_rng
     = (Response 400 (ErrorMessage (js ''Missing required parameters: ttl, cipherText, iv'')),
        Map.empty, sample_rng)
   \<and> (\<exists>created.
         fst (snd (handle_submit pf (js ''https://txtoo.example'') 1700000000000
                     (Inr (sample_body (JNumber (Finite 3600)))) Map.empty sample_rng))
             (js ''-iNMdZ7H8BlC'')
           = Some created
         \<and> Map.empty (js ''-iNMdZ7H8BlC'') \<noteq> Some created
         \<and> member (sample_body (JNumber (Finite 3600))) (js ''ttl'') = Some (JNumber (Finite 3600))
         \<and> row_created_at created = JNumber (Finite 1700000000)
         \<and> row_expires_at created = JNumber (Finite 1700003600)
         \<and> less_than_number pf (row_created_at created) (Finite 1700003600) = Inr True)"
proof
  fix pf
  let ?row = "\<lparr>row_id = js ''-iNMdZ7H8BlC'', row_cipher_text = JString (js ''c1''),
         row_iv = JString (js ''v1''), row_created_at = JNumber (Finite 1700000000),
         row_expires_at = JNumber (Finite 1700003600)\<rparr>"
  have 1: "handle_submit pf (js ''https://txtoo.example'') 1700000000000
        (Inr (sample_body (JNumber (Finite 0)))) Map.empty sample_rng
     = (Response 400 (ErrorMessage (js ''Missing required parameters: ttl, cipherText, iv'')),
        Map.empty, sample_rng)"
    using submit_ttl_validation [of pf "js ''https://txtoo.example''" 1700000000000 SyntaxError
        Map.empty sample_rng "sample_body (JNumber (Finite 0))"]
    by (simp add: sample_body_simps)
  have s: "fst (snd (handle_submit pf (js ''https://txtoo.example'') 1700000000000
                     (Inr (sample_body (JNumber (Finite 3600)))) Map.empty sample_rng))
             (js ''-iNMdZ7H8BlC'') = Some ?row"
    using sample_submit [of 3600 pf] by simp
  have 2: "row_created_at ?row = JNumber (Finite 1700000000)
         \<and> row_expires_at ?row = JNumber (Finite 1700003600)
         \<and> less_than_number pf (row_created_at ?row) (Finite 1700003600) = Inr True"
    using submit_ttl_validation [of pf "js ''https://txtoo.example''" 1700000000000 SyntaxError
        Map.empty sample_rng "sample_body (JNumber (Finite 3600))"] s
    by (simp add: less_than_number_number)
  show "sample_body (JNumber (Finite 0)) \<noteq> JNull
   \<and> member (sample_body (JNumber (Finite 0))) (js ''ttl'') = Some (JNumber (Finite 0))
   \<and> handle_submit pf (js ''https://txtoo.example'') 1700000000000
        (Inr (sample_body (JNumber (Finite 0)))) Map.empty sample_rng
     = (Response 400 (ErrorMessage (js ''Missing required parameters: ttl, cipherText, iv'')),
        Map.empty, sample_rng)
   \<and> (\<exists>created.
         fst (snd (handle_submit pf (js ''https://txtoo.example'') 1700000000000
                     (Inr (sample_body (JNumber (Finite 3600)))) Map.empty sample_rng))
             (js ''-iNMdZ7H8BlC'')
           = Some created
         \<and> Map.empty (js ''-iNMdZ7H8BlC'') \<noteq> Some created
         \<and> member (sample_body (JNumber (Finite 3600))) (js ''ttl'') = Some (JNumber (Finite 3600))
         \<and> row_created_at created = JNumber (Finite 1700000000)
         \<and> row_expires_at created = JNumber (Finite 1700003600)
         \<and> less_than_number pf (row_created_at created) (Finite 1700003600) = Inr True)"
    using 1 s 2 by (simp add: sample_body_simps)
qed

text \<open>
  Claim C4 as stated fails for a negative \<^verbatim>\<open>ttl\<close>: the check \<^verbatim>\<open>!ttl\<close> lets \<open>-5\<close>
  pass, the answer is 200 and the record is stored with \<^verbatim>\<open>expires_at\<close> five seconds
  before \<^verbatim>\<open>created_at\<close>.
\<close>

theorem submit_negative_ttl_counterexample:
  "\<forall>pf. handle_submit pf (js ''https://txtoo.example'') 1700000000000
       (Inr (sample_body (JNumber (Finite (- 5))))) Map.empty sample_rng
   = (Response 200 (SubmitData (js ''-iNMdZ7H8BlC'') (js ''https://txtoo.example/-iNMdZ7H8BlC'')
         (JNumber (Finite 1699999995))),
      Map.empty(js ''-iNMdZ7H8BlC'' \<mapsto>
        \<lparr>row_id = js ''-iNMdZ7H8BlC'', row_cipher_text = JString (js ''c1''),
         row_iv = JString (js ''v1''), row_created_at = JNumber (Finite 1700000000),
         row_expires_at = JNumber (Finite 1699999995)\<rparr>),
      \<lambda>i. sample_rng (i + 9))"
  using sample_submit [of "- 5"] by simp

text \<open>
  Claim C5, as amended. When the identifier a submit generates is already in the table,
  the \<^verbatim>\<open>INSERT\<close> fails on the primary key and the stored record is not overwritten; the
  handler does not try again: it has drawn exactly one identifier (nine bytes of the
  source) and answers 500 at once, the table unchanged.
\<close>

theorem submit_collision_no_retry:
  assumes "to_boolean (member body (js ''ttl''))" "to_boolean (member body (js ''cipherText''))"
    and "to_boolean (member body (js ''iv''))"
    and "generateId 12 r = Inr (ident, r')" and "db ident = Some existing"
  shows "handle_submit pf origin date_now (Inr body) db r
           = (Response 500 (ErrorMessage (js ''Failed to store data'')), db, r')
         \<and> r' = (\<lambda>i. r (i + 9))
         \<and> (\<forall>new. row_id new = ident \<longrightarrow> db_insert db new = Inl ConstraintError)"
proof -
  have "handle_submit pf origin date_now (Inr body) db r
           = (Response 500 (ErrorMessage (js ''Failed to store data'')), db, r')"
    using assms by (rule handle_submit_collision)
  moreover have "r' = (\<lambda>i. r (i + 9))" using assms(4) by (simp add: generateId_12)
  moreover have "\<forall>new. row_id new = ident \<longrightarrow> db_insert db new = Inl ConstraintError"
    by (simp add: db_insert_def assms(5))
  ultimately show ?thesis by simp
qed

theorem submit_collision_no_retry_witness:
  "\<forall>pf.
     to_boolean (member (sample_body (JNumber (Finite 3600))) (js ''ttl''))
   \<and> to_boolean (member (sample_body (JNumber (Finite 3600))) (js ''cipherText''))
   \<and> to_boolean (member (sample_body (JNumber (Finite 3600))) (js ''iv''))
   \<and> generateId 12 colliding_rng = Inr (js ''AAAAAAAAAAAA'', \<lambda>i. colliding_rng (i + 9))
   \<and> stored_db (js ''AAAAAAAAAAAA'') = Some stored_row
   \<and> handle_submit pf (js ''https://txtoo.example'') 1700000000500
        (Inr (sample_body (JNumber (Finite 3600)))) stored_db colliding_rng
      = (Response 500 (ErrorMessage (js ''Failed to store data'')), stored_db,
         \<lambda>i. colliding_rng (i + 9))
   \<and> db_insert stored_db
        \<lparr>row_id = js ''AAAAAAAAAAAA'', row_cipher_text = JString (js ''c1''),
         row_iv = JString (js ''v1''), row_created_at = JNumber (Finite 1700000000),
         row_expires_at = JNumber (Finite 1700003600)\<rparr>
      = Inl ConstraintError"
proof
  fix pf
  have h: "to_boolean (member (sample_body (JNumber (Finite 3600))) (js ''ttl''))"
    "to_boolean (member (sample_body (JNumber (Finite 3600))) (js ''cipherText''))"
    "to_boolean (member (sample_body (JNumber (Finite 3600))) (js ''iv''))"
    by (simp_all add: sample_body_simps) (simp add: to_boolean_def)
  show "to_boolean (member (sample_body (JNumber (Finite 3600))) (js ''ttl''))
   \<and> to_boolean (member (sample_body (JNumber (Finite 3600))) (js ''cipherText''))
   \<and> to_boolean (member (sample_body (JNumber (Finite 3600))) (js ''iv''))
   \<and> generateId 12 colliding_rng = Inr (js ''AAAAAAAAAAAA'', \<lambda>i. colliding_rng (i + 9))
   \<and> stored_db (js ''AAAAAAAAAAAA'') = Some stored_row
   \<and> handle_submit pf (js ''https://txtoo.example'') 1700000000500
        (Inr (sample_body (JNumber (Finite 3600)))) stored_db colliding_rng
      = (Response 500 (ErrorMessage (js ''Failed to store data'')), stored_db,
         \<lambda>i. colliding_rng (i + 9))
   \<and> db_insert stored_db
        \<lparr>row_id = js ''AAAAAAAAAAAA'', row_cipher_text = JString (js ''c1''),
         row_iv = JString (js ''v1''), row_created_at = JNumber (Finite 1700000000),
         row_expires_at = JNumber (Finite 1700003600)\<rparr>
      = Inl ConstraintError"
    using submit_collision_no_retry [where body = "sample_body (JNumber (Finite 3600))"
        and r = colliding_rng and ident = "js ''AAAAAAAAAAAA''"
        and r' = "\<lambda>i. colliding_rng (i + 9)" and db = stored_db and existing = stored_row
        and origin = "js ''https://txtoo.example''" and date_now = 1700000000500 and pf = pf]
      h colliding_id stored_db_simps(1)
    by simp
qed

text \<open>
  Claim C5 as stated fails: there is no retry. Here the first identifier is taken and the
  next one the source would give is free, and the answer is 500 all the same.
\<close>

theorem submit_collision_counterexample:
  "\<forall>pf.
     handle_submit pf (js ''https://txtoo.example'') 1700000000500
       (Inr (sample_body (JNumber (Finite 3600)))) stored_db colliding_rng
     = (Response 500 (ErrorMessage (js ''Failed to store data'')), stored_db,
        \<lambda>i. colliding_rng (i + 9))
   \<and> map_sum id fst (generateId 12 (\<lambda>i. colliding_rng (i + 9))) = Inr (js ''____________'')
   \<and> stored_db (js ''____________'') = None"
proof
  fix pf
  have tb: "to_boolean (member (sample_body (JNumber (Finite 3600))) (js ''ttl''))"
    by (simp add: sample_body_simps to_boolean_def)
  have "handle_submit pf (js ''https://txtoo.example'') 1700000000500
       (Inr (sample_body (JNumber (Finite 3600)))) stored_db colliding_rng
     = (Response 500 (ErrorMessage (js ''Failed to store data'')), stored_db,
        \<lambda>i. colliding_rng (i + 9))"
    by (rule handle_submit_collision [where db = stored_db and ident = "js ''AAAAAAAAAAAA''",
          OF tb sample_body_simps(7,8) colliding_id stored_db_simps(1)])
  then show "handle_submit pf (js ''https://txtoo.example'') 1700000000500
       (Inr (sample_body (JNumber (Finite 3600)))) stored_db colliding_rng
     = (Response 500 (ErrorMessage (js ''Failed to store data'')), stored_db,
        \<lambda>i. colliding_rng (i + 9))
   \<and> map_sum id fst (generateId 12 (\<lambda>i. colliding_rng (i + 9))) = Inr (js ''____________'')
   \<and> stored_db (js ''____________'') = None"
    by (simp add: stored_db_simps next_id)
qed




text \<open>
  Claim C7, as amended. For every length up to 87381, \<^verbatim>\<open>generateId\<close> draws exactly
  \<open>ceil(length * 3 / 4)\<close> bytes from the secure source, base64url-encodes them and keeps
  the first \<open>length\<close> characters of the encoding: the result has exactly \<open>length\<close>
  characters, all of the URL-safe alphabet. The default length 12 is such a length.
\<close>

theorem generateId_shape:
  assumes "len \<le> 87381"
  shows "\<exists>enc. base64urlEncode (map r [0..<(len * 3 + 3) div 4]) = Inr enc
           \<and> generateId len r = Inr (take len enc, \<lambda>i. r (i + (len * 3 + 3) div 4))
           \<and> length (take len enc) = len
           \<and> set (take len enc) \<subseteq> set base64url_alphabet"
proof -
  let ?n = "(len * 3 + 3) div 4"
  let ?enc = "map to_url (b64_body (map r [0..<?n]))"
  have q: "?n \<le> 65536" using assms by linarith
  have "len \<le> length ?enc" using id_long_enough [of len] by (simp add: length_b64_body)
  then have l: "length (take len ?enc) = len" by simp
  have "set (take len ?enc) \<subseteq> set ?enc" by (rule set_take_subset)
  then have s: "set (take len ?enc) \<subseteq> set base64url_alphabet"
    using base64url_body_alphabet by blast
  show ?thesis
    using l s by (auto simp: base64urlEncode_eq generateId_eq [OF q])
qed

theorem generateId_shape_witness:
  "(12::nat) \<le> 87381
   \<and> (\<exists>enc. base64urlEncode (map sample_rng [0..<9]) = Inr enc
          \<and> generateId 12 sample_rng = Inr (take 12 enc, \<lambda>i. sample_rng (i + 9))
          \<and> length (take 12 enc) = 12
          \<and> set (take 12 enc) \<subseteq> set base64url_alphabet)
   \<and> generateId 12 sample_rng = Inr (js ''-iNMdZ7H8BlC'', \<lambda>i. sample_rng (i + 9))"
  using generateId_shape [of 12 sample_rng] sample_id by simp

text \<open>
  Claim C7 as stated fails for a length above 87381: the source refuses a request of more
  than 65536 bytes, and no identifier is returned.
\<close>

theorem generateId_quota_counterexample:
  "generateId 87382 sample_rng = Inl QuotaExceededError"
  by (simp add: generateId_def getRandomValues_def)

text \<open>
  Claim C8. Every encryption draws a salt of 16 bytes and then a nonce of 12 bytes from
  the secure source, and returns \<^verbatim>\<open>cipherText\<close>, the base64url encoding of the salt
  followed by the output of AES-GCM, and \<^verbatim>\<open>iv\<close>, the base64url encoding of the nonce
  alone. Base64url is the encoding of RFC 4648, section 5, without padding: both fields
  consist of characters of the URL-safe alphabet only (no \<open>+\<close>, \<open>/\<close> or \<open>=\<close>), the
  \<^verbatim>\<open>iv\<close> field has 16 characters and the \<^verbatim>\<open>cipherText\<close> field four for every three
  bytes, rounded up. The decoded \<^verbatim>\<open>cipherText\<close> has the salt as its first 16 bytes and
  the ciphertext with its tag after them.
\<close>

theorem envelope_layout:
  "\<exists>cipherText ivString combined.
      encryptText subtle r text password
        = Inr (\<lparr>env_cipherText = cipherText, env_iv = ivString\<rparr>, \<lambda>i. r (i + 28))
    \<and> base64urlEncode
          (map r [0..<16]
           @ aes_gcm_encrypt subtle (deriveKey subtle password (map r [0..<16]))
               (map (\<lambda>i. r (i + 16)) [0..<12]) (TextEncoder_encode text))
        = Inr cipherText
    \<and> base64urlEncode (map (\<lambda>i. r (i + 16)) [0..<12]) = Inr ivString
    \<and> cipherText
        = rfc4648_base64url
            (map r [0..<16]
             @ aes_gcm_encrypt subtle (deriveKey subtle password (map r [0..<16]))
                 (map (\<lambda>i. r (i + 16)) [0..<12]) (TextEncoder_encode text))
    \<and> ivString = rfc4648_base64url (map (\<lambda>i. r (i + 16)) [0..<12])
    \<and> set cipherText \<subseteq> set base64url_alphabet
    \<and> set ivString \<subseteq> set base64url_alphabet
    \<and> cu CHR ''='' \<notin> set cipherText \<and> cu CHR ''+'' \<notin> set cipherText
    \<and> cu CHR ''/'' \<notin> set cipherText
    \<and> cu CHR ''='' \<notin> set ivString \<and> cu CHR ''+'' \<notin> set ivString
    \<and> cu CHR ''/'' \<notin> set ivString
    \<and> length cipherText
        = ((16 + length (aes_gcm_encrypt subtle (deriveKey subtle password (map r [0..<16]))
                           (map (\<lambda>i. r (i + 16)) [0..<12]) (TextEncoder_encode text))) * 4 + 2)
          div 3
    \<and> length ivString = 16
    \<and> length (map r [0..<16]) = 16
    \<and> length (map (\<lambda>i. r (i + 16)) [0..<12]) = 12
    \<and> base64urlDecode cipherText = Inr combined
    \<and> take 16 combined = map r [0..<16]
    \<and> drop 16 combined
        = aes_gcm_encrypt subtle (deriveKey subtle password (map r [0..<16]))
            (map (\<lambda>i. r (i + 16)) [0..<12]) (TextEncoder_encode text)
    \<and> base64urlDecode ivString = Inr (map (\<lambda>i. r (i + 16)) [0..<12])"
proof -
  let ?salt = "map r [0..<16]"
  let ?iv = "map (\<lambda>i. r (i + 16)) [0..<12]"
  let ?ct = "aes_gcm_encrypt subtle (deriveKey subtle password ?salt) ?iv (TextEncoder_encode text)"
  let ?c = "map to_url (b64_body (?salt @ ?ct))"
  let ?v = "map to_url (b64_body ?iv)"
  have e: "encryptText subtle r text password
        = Inr (\<lparr>env_cipherText = ?c, env_iv = ?v\<rparr>, \<lambda>i. r (i + 28))"
    unfolding encryptText_eq by (simp add: add.commute del: upt_Suc map_map map_append)
  have enc: "base64urlEncode (?salt @ ?ct) = Inr ?c" "base64urlEncode ?iv = Inr ?v"
    by (simp_all only: base64urlEncode_eq)
  have rfc: "?c = rfc4648_base64url (?salt @ ?ct)" "?v = rfc4648_base64url ?iv"
    by (simp_all only: base64url_body_rfc)
  have sub: "set ?c \<subseteq> set base64url_alphabet" "set ?v \<subseteq> set base64url_alphabet"
    by (rule base64url_body_alphabet)+
  have np: "cu CHR ''='' \<notin> set ?c \<and> cu CHR ''+'' \<notin> set ?c \<and> cu CHR ''/'' \<notin> set ?c"
    "cu CHR ''='' \<notin> set ?v \<and> cu CHR ''+'' \<notin> set ?v \<and> cu CHR ''/'' \<notin> set ?v"
    using sub(1) apply (rule base64url_no_pad)
    using sub(2) apply (rule base64url_no_pad)
    done
  have len: "length ?c = ((16 + length ?ct) * 4 + 2) div 3" "length ?v = 16"
    by (simp_all add: length_b64_body del: upt_Suc map_map map_append)
  have dec: "base64urlDecode ?c = Inr (?salt @ ?ct)" "base64urlDecode ?v = Inr ?iv"
    by (simp_all only: base64urlDecode_encoded)
  have parts: "take 16 (?salt @ ?ct) = ?salt" "drop 16 (?salt @ ?ct) = ?ct"
    "length ?salt = 16" "length ?iv = 12"
    by (simp_all del: upt_Suc map_map map_append)
  show ?thesis
    using e enc rfc sub np len dec parts by blast
qed

text \<open>
  Claim C9. For every byte buffer \<open>b\<close>, \<^verbatim>\<open>base64urlEncode\<close> returns a string, and
  \<^verbatim>\<open>base64urlDecode\<close> of that string returns \<open>b\<close>: removing the padding and
  substituting \<open>-\<close> and \<open>_\<close> is undone by the decoder's padding loop and its
  substitution back.
\<close>

theorem base64url_round_trip:
  "\<exists>s. base64urlEncode b = Inr s \<and> base64urlDecode s = Inr b"
  by (simp add: base64urlEncode_eq base64urlDecode_encoded)

text \<open>
  Claim C10. \<^verbatim>\<open>generateRandomPassword\<close> always returns a string of exactly 16
  characters, each of the 64-character URL-safe alphabet; every one is an unreserved
  character of a URL, and none is the separator \<open>~\<close> of the share URL.
\<close>

theorem generateRandomPassword_shape:
  "\<exists>pw. generateRandomPassword r = Inr (pw, \<lambda>i. r (i + 16))
        \<and> length pw = 16
        \<and> set pw \<subseteq> set base64url_alphabet
        \<and> length base64url_alphabet = 64
        \<and> list_all uri_unreserved pw
        \<and> cu CHR ''~'' \<notin> set pw"
proof -
  let ?pw = "map (\<lambda>i. base64url_alphabet ! (unat (map r [0..<16] ! i) mod length base64url_alphabet))
               [0..<16]"
  have eq: "generateRandomPassword r = Inr (?pw, \<lambda>i. r (i + 16))"
    by (simp add: generateRandomPassword_def getRandomValues_def base64url_alphabet_def Let_def
        del: map_map upt_Suc)
  have sub: "set ?pw \<subseteq> set base64url_alphabet"
    using chars_nth_mem by (auto simp del: upt_Suc)
  have unres: "\<forall>c \<in> set base64url_alphabet. uri_unreserved c"
    by (simp add: base64url_alphabet_def js_def uri_unreserved_def cu_def)
  have tilde: "cu CHR ''~'' \<notin> set base64url_alphabet"
    by (simp add: base64url_alphabet_def js_def cu_def)
  have "list_all uri_unreserved ?pw" using sub unres by (auto simp: list_all_iff simp del: upt_Suc)
  moreover have "cu CHR ''~'' \<notin> set ?pw" using sub tilde by blast
  moreover have "length ?pw = 16" by simp
  moreover have "length base64url_alphabet = 64" by (simp add: base64url_alphabet_def js_def)
  ultimately show ?thesis using eq sub by blast
qed

section \<open>Further properties of the record store\<close>

text \<open>
  The life of a stored record whose \<^verbatim>\<open>expires_at\<close> is an integer. While the second of
  \<^verbatim>\<open>Date.now()\<close> is at most \<^verbatim>\<open>expires_at\<close>, a fetch answers 200 with the record and
  leaves the table as it is. Once it is past \<^verbatim>\<open>expires_at\<close>, a fetch answers 410 and
  deletes the row, and every later fetch of the identifier answers 404.
\<close>

theorem fetch_lifecycle:
  assumes "db ident = Some found" and "row_expires_at found = JNumber (Finite (of_int expires))"
  shows "(date_now div 1000 \<le> expires \<longrightarrow>
            handle_fetch pf date_now ident db
              = (Response 200 (FetchData (row_id found) (row_cipher_text found) (row_iv found)
                   (row_expires_at found)), db))
       \<and> (expires < date_now div 1000 \<longrightarrow>
            handle_fetch pf date_now ident db
              = (Response 410 (ErrorMessage (js ''Text has expired'')), db(ident := None))
            \<and> handle_fetch pf later ident (db(ident := None))
              = (Response 404 (ErrorMessage (js ''Text not found'')), db(ident := None)))"
  using assms by (simp add: handle_fetch_stored handle_fetch_absent)

theorem fetch_lifecycle_witness:
  "\<forall>pf.
     stored_db (js ''AAAAAAAAAAAA'') = Some stored_row
   \<and> row_expires_at stored_row = JNumber (Finite (of_int 1700000001))
   \<and> (1700000000999 :: int) div 1000 \<le> 1700000001
   \<and> handle_fetch pf 1700000000999 (js ''AAAAAAAAAAAA'') stored_db
       = (Response 200 (FetchData (js ''AAAAAAAAAAAA'') (JString (js ''expireTest''))
            (JString (js ''expireIV'')) (JNumber (Finite 1700000001))), stored_db)
   \<and> (1700000001 :: int) < 1700000002000 div 1000
   \<and> handle_fetch pf 1700000002000 (js ''AAAAAAAAAAAA'') stored_db
       = (Response 410 (ErrorMessage (js ''Text has expired'')),
          stored_db(js ''AAAAAAAAAAAA'' := None))
   \<and> handle_fetch pf 1700000003000 (js ''AAAAAAAAAAAA'') (stored_db(js ''AAAAAAAAAAAA'' := None))
       = (Response 404 (ErrorMessage (js ''Text not found'')),
          stored_db(js ''AAAAAAAAAAAA'' := None))"
proof
  fix pf
  have e: "row_expires_at stored_row = JNumber (Finite (of_int 1700000001))"
    by (simp add: stored_row_simps)
  show "stored_db (js ''AAAAAAAAAAAA'') = Some stored_row
   \<and> row_expires_at stored_row = JNumber (Finite (of_int 1700000001))
   \<and> (1700000000999 :: int) div 1000 \<le> 1700000001
   \<and> handle_fetch pf 1700000000999 (js ''AAAAAAAAAAAA'') stored_db
       = (Response 200 (FetchData (js ''AAAAAAAAAAAA'') (JString (js ''expireTest''))
            (JString (js ''expireIV'')) (JNumber (Finite 1700000001))), stored_db)
   \<and> (1700000001 :: int) < 1700000002000 div 1000
   \<and> handle_fetch pf 1700000002000 (js ''AAAAAAAAAAAA'') stored_db
       = (Response 410 (ErrorMessage (js ''Text has expired'')),
          stored_db(js ''AAAAAAAAAAAA'' := None))
   \<and> handle_fetch pf 1700000003000 (js ''AAAAAAAAAAAA'') (stored_db(js ''AAAAAAAAAAAA'' := None))
       = (Response 404 (ErrorMessage (js ''Text not found'')),
          stored_db(js ''AAAAAAAAAAAA'' := None))"
    using fetch_lifecycle [where db = stored_db and ident = "js ''AAAAAAAAAAAA''"
        and found = stored_row and expires = 1700000001 and pf = pf
        and date_now = 1700000000999 and later = 1700000003000, OF stored_db_simps(1) e]
      fetch_lifecycle [where db = stored_db and ident = "js ''AAAAAAAAAAAA''"
        and found = stored_row and expires = 1700000001 and pf = pf
        and date_now = 1700000002000 and later = 1700000003000, OF stored_db_simps(1) e]
    by (simp add: stored_row_simps stored_db_simps)
qed

text \<open>
  Submit, then fetch. When \<^verbatim>\<open>cipherText\<close> and \<^verbatim>\<open>iv\<close> are strings of at most 65536
  printable ASCII characters (as the strings of an envelope are) and \<^verbatim>\<open>ttl\<close> is an
  integer \<open>t\<close>, with \<open>now\<close> and \<open>now + t\<close> of magnitude at most \<open>2^53\<close>, a submit that is answered
  200 has stored the two strings
  under a new identifier of 12 characters that was not in the table, with
  \<open>expiresAt = now + t\<close>; a fetch of that identifier no later than \<open>expiresAt\<close> returns
  the two strings and \<open>expiresAt\<close>.
\<close>

theorem submit_then_fetch:
  assumes "handle_submit pf origin date_now (Inr body) db r = (Response 200 p, db', r')"
    and "member body (js ''ttl'') = Some (JNumber (Finite (of_int t)))"
    and "\<bar>date_now div 1000\<bar> \<le> 2 ^ 53" "\<bar>date_now div 1000 + t\<bar> \<le> 2 ^ 53"
    and "member body (js ''cipherText'') = Some (JString c)" "printable_ascii c"
    and "length c \<le> 65536"
    and "member body (js ''iv'') = Some (JString v)" "printable_ascii v"
    and "length v \<le> 65536"
    and "later div 1000 \<le> date_now div 1000 + t"
  shows "\<exists>ident. p = SubmitData ident (origin @ js ''/'' @ ident)
                      (JNumber (Finite (of_int (date_now div 1000 + t))))
           \<and> length ident = 12
           \<and> db ident = None
           \<and> handle_fetch pf later ident db'
               = (Response 200 (FetchData ident (JString c) (JString v)
                    (JNumber (Finite (of_int (date_now div 1000 + t))))), db')"
proof -
  have nn: "body \<noteq> JNull" using assms(2) by (auto simp: member_null)
  have tr: "to_boolean (member body (js ''ttl'')) \<and> to_boolean (member body (js ''cipherText''))
            \<and> to_boolean (member body (js ''iv''))"
  proof (rule ccontr)
    assume "\<not> ?thesis"
    then have "\<not> to_boolean (member body (js ''ttl''))
        \<or> \<not> to_boolean (member body (js ''cipherText''))
        \<or> \<not> to_boolean (member body (js ''iv''))" by blast
    from handle_submit_missing [OF nn this, of pf origin date_now db r] assms(1)
    show False by simp
  qed
  have tb: "to_boolean (Some (JNumber (Finite (of_int t))))" "to_boolean (Some (JString c))"
    "to_boolean (Some (JString v))"
    using tr assms(2,5,8) by simp_all
  obtain i r2 where g: "generateId 12 r = Inr (i, r2)" by (simp add: generateId_12)
  have len: "length i = 12" using g by (rule generateId_12_length)
  have plus: "js_plus pf (JNumber (Finite (of_int (date_now div 1000))))
                (JNumber (Finite (of_int t)))
              = Inr (JNumber (Finite (of_int (date_now div 1000 + t))))"
    using number_add_int [OF assms(4)] by (simp add: js_plus_number)
  note hs = handle_submit_valid [OF assms(2) tb(1) assms(5) tb(2) assms(8) tb(3) g,
      of pf origin date_now db]
  show ?thesis
  proof (cases "db i")
    case None
    have ins: "d1_insert pf db i (JString c) (JString v)
                 (JNumber (Finite (of_int (date_now div 1000))))
                 (JNumber (Finite (of_int (date_now div 1000 + t))))
               = Inr (db(i \<mapsto> \<lparr>row_id = i, row_cipher_text = JString c, row_iv = JString v,
                     row_created_at = JNumber (Finite (of_int (date_now div 1000))),
                     row_expires_at = JNumber (Finite (of_int (date_now div 1000 + t)))\<rparr>))"
      by (rule d1_insert_kept [where db = db and ident = i, OF None assms(6,7,9,10,3,4)])
    have res: "p = SubmitData i (origin @ js ''/'' @ i)
                     (JNumber (Finite (of_int (date_now div 1000 + t))))"
      "db' = db(i \<mapsto> \<lparr>row_id = i, row_cipher_text = JString c, row_iv = JString v,
                     row_created_at = JNumber (Finite (of_int (date_now div 1000))),
                     row_expires_at = JNumber (Finite (of_int (date_now div 1000 + t)))\<rparr>)"
    proof -
      have "handle_submit pf origin date_now (Inr body) db r
          = (Response 200 (SubmitData i (origin @ js ''/'' @ i)
               (JNumber (Finite (of_int (date_now div 1000 + t))))),
             db(i \<mapsto> \<lparr>row_id = i, row_cipher_text = JString c, row_iv = JString v,
                     row_created_at = JNumber (Finite (of_int (date_now div 1000))),
                     row_expires_at = JNumber (Finite (of_int (date_now div 1000 + t)))\<rparr>),
             r2)"
        by (simp only: hs plus ins sum.case)
      then show "p = SubmitData i (origin @ js ''/'' @ i)
                     (JNumber (Finite (of_int (date_now div 1000 + t))))"
        "db' = db(i \<mapsto> \<lparr>row_id = i, row_cipher_text = JString c, row_iv = JString v,
                     row_created_at = JNumber (Finite (of_int (date_now div 1000))),
                     row_expires_at = JNumber (Finite (of_int (date_now div 1000 + t)))\<rparr>)"
        using assms(1) by simp_all
    qed
    have "handle_fetch pf later i db'
               = (Response 200 (FetchData i (JString c) (JString v)
                    (JNumber (Finite (of_int (date_now div 1000 + t))))), db')"
      using assms(11)
      by (simp add: res(2) handle_fetch_def db_select_def less_than_number_number
          del: of_int_add)
    then show ?thesis using res(1) len None by blast
  next
    case (Some existing)
    obtain e where "d1_insert pf db i (JString c) (JString v)
                 (JNumber (Finite (of_int (date_now div 1000))))
                 (JNumber (Finite (of_int (date_now div 1000 + t)))) = Inl e"
      using d1_insert_collision [where db = db and ident = i, OF Some] by blast
    then have "handle_submit pf origin date_now (Inr body) db r
          = (Response 500 (ErrorMessage (js ''Failed to store data'')), db, r2)"
      by (simp only: hs plus sum.case)
    then show ?thesis using assms(1) by simp
  qed
qed

theorem submit_then_fetch_witness:
  "\<forall>pf.
     handle_submit pf (js ''https://txtoo.example'') 1700000000000
       (Inr (sample_body (JNumber (Finite (of_int 3600))))) Map.empty sample_rng
     = (Response 200 (SubmitData (js ''-iNMdZ7H8BlC'') (js ''https://txtoo.example/-iNMdZ7H8BlC'')
          (JNumber (Finite 1700003600))),
        Map.empty(js ''-iNMdZ7H8BlC'' \<mapsto>
          \<lparr>row_id = js ''-iNMdZ7H8BlC'', row_cipher_text = JString (js ''c1''),
           row_iv = JString (js ''v1''), row_created_at = JNumber (Finite 1700000000),
           row_expires_at = JNumber (Finite 1700003600)\<rparr>),
        \<lambda>i. sample_rng (i + 9))
   \<and> member (sample_body (JNumber (Finite (of_int 3600)))) (js ''ttl'')
       = Some (JNumber (Finite (of_int 3600)))
   \<and> \<bar>(1700000000000 :: int) div 1000\<bar> \<le> 2 ^ 53
   \<and> \<bar>(1700000000000 :: int) div 1000 + 3600\<bar> \<le> 2 ^ 53
   \<and> member (sample_body (JNumber (Finite (of_int 3600)))) (js ''cipherText'')
       = Some (JString (js ''c1''))
   \<and> printable_ascii (js ''c1'') \<and> length (js ''c1'') \<le> 65536
   \<and> member (sample_body (JNumber (Finite (of_int 3600)))) (js ''iv'')
       = Some (JString (js ''v1''))
   \<and> printable_ascii (js ''v1'') \<and> length (js ''v1'') \<le> 65536
   \<and> (1700000001000 :: int) div 1000 \<le> 1700000000000 div 1000 + 3600
   \<and> handle_fetch pf 1700000001000 (js ''-iNMdZ7H8BlC'')
         (Map.empty(js ''-iNMdZ7H8BlC'' \<mapsto>
           \<lparr>row_id = js ''-iNMdZ7H8BlC'', row_cipher_text = JString (js ''c1''),
            row_iv = JString (js ''v1''), row_created_at = JNumber (Finite 1700000000),
            row_expires_at = JNumber (Finite 1700003600)\<rparr>))
       = (Response 200 (FetchData (js ''-iNMdZ7H8BlC'') (JString (js ''c1'')) (JString (js ''v1''))
            (JNumber (Finite 1700003600))),
          Map.empty(js ''-iNMdZ7H8BlC'' \<mapsto>
           \<lparr>row_id = js ''-iNMdZ7H8BlC'', row_cipher_text = JString (js ''c1''),
            row_iv = JString (js ''v1''), row_created_at = JNumber (Finite 1700000000),
            row_expires_at = JNumber (Finite 1700003600)\<rparr>))"
proof
  fix pf
  let ?db = "Map.empty(js ''-iNMdZ7H8BlC'' \<mapsto>
          \<lparr>row_id = js ''-iNMdZ7H8BlC'', row_cipher_text = JString (js ''c1''),
           row_iv = JString (js ''v1''), row_created_at = JNumber (Finite 1700000000),
           row_expires_at = JNumber (Finite 1700003600)\<rparr>)"
  have s: "handle_submit pf (js ''https://txtoo.example'') 1700000000000
       (Inr (sample_body (JNumber (Finite (of_int 3600))))) Map.empty sample_rng
     = (Response 200 (SubmitData (js ''-iNMdZ7H8BlC'') (js ''https://txtoo.example/-iNMdZ7H8BlC'')
          (JNumber (Finite 1700003600))), ?db, \<lambda>i. sample_rng (i + 9))"
    using sample_submit [of 3600 pf] by simp
  have b: "\<bar>(1700000000000 :: int) div 1000\<bar> \<le> 2 ^ 53"
    "\<bar>(1700000000000 :: int) div 1000 + 3600\<bar> \<le> 2 ^ 53"
    "(1700000001000 :: int) div 1000 \<le> 1700000000000 div 1000 + 3600"
    by simp_all
  have f: "handle_fetch pf 1700000001000 (js ''-iNMdZ7H8BlC'') ?db
       = (Response 200 (FetchData (js ''-iNMdZ7H8BlC'') (JString (js ''c1'')) (JString (js ''v1''))
            (JNumber (Finite 1700003600))), ?db)"
    using submit_then_fetch [OF s sample_body_simps(1) b(1,2) sample_body_simps(2)
        sample_strings(1,2) sample_body_simps(3) sample_strings(3,4) b(3)]
    by (auto simp: js_def)
  show "handle_submit pf (js ''https://txtoo.example'') 1700000000000
       (Inr (sample_body (JNumber (Finite (of_int 3600))))) Map.empty sample_rng
     = (Response 200 (SubmitData (js ''-iNMdZ7H8BlC'') (js ''https://txtoo.example/-iNMdZ7H8BlC'')
          (JNumber (Finite 1700003600))), ?db, \<lambda>i. sample_rng (i + 9))
   \<and> member (sample_body (JNumber (Finite (of_int 3600)))) (js ''ttl'')
       = Some (JNumber (Finite (of_int 3600)))
   \<and> \<bar>(1700000000000 :: int) div 1000\<bar> \<le> 2 ^ 53
   \<and> \<bar>(1700000000000 :: int) div 1000 + 3600\<bar> \<le> 2 ^ 53
   \<and> member (sample_body (JNumber (Finite (of_int 3600)))) (js ''cipherText'')
       = Some (JString (js ''c1''))
   \<and> printable_ascii (js ''c1'') \<and> length (js ''c1'') \<le> 65536
   \<and> member (sample_body (JNumber (Finite (of_int 3600)))) (js ''iv'')
       = Some (JString (js ''v1''))
   \<and> printable_ascii (js ''v1'') \<and> length (js ''v1'') \<le> 65536
   \<and> (1700000001000 :: int) div 1000 \<le> 1700000000000 div 1000 + 3600
   \<and> handle_fetch pf 1700000001000 (js ''-iNMdZ7H8BlC'') ?db
       = (Response 200 (FetchData (js ''-iNMdZ7H8BlC'') (JString (js ''c1'')) (JString (js ''v1''))
            (JNumber (Finite 1700003600))), ?db)"
    using s f b sample_body_simps(1,2,3) sample_strings by blast
qed

end
